theory Spec2Isabelle
  imports Complex_Main
begin

section \<open>The numeric kinds and their values\<close>

text \<open>
  \<^verbatim>\<open>NumberType\<close> is the closed set of Go's integer and floating-point types. The type
  argument \<^verbatim>\<open>T\<close> of the source is an explicit argument here: its \<^verbatim>\<open>reflect.Kind\<close> \<open>k\<close>.
  A value of \<^verbatim>\<open>T\<close> is an integer (\<open>IntV\<close>, for the eleven integer kinds, between \<open>minOf k\<close>
  and \<open>maxOf k\<close>) or a floating-point number (\<open>FloatV\<close>, for the two float kinds).
\<close>

datatype kind =
  KInt | KInt8 | KInt16 | KInt32 | KInt64
  | KUint | KUint8 | KUint16 | KUint32 | KUint64 | KUintptr
  | KFloat32 | KFloat64

text \<open>
  A floating-point number is finite (with its exact value; \<open>Finite 0\<close> is the positive
  zero), the negative zero, an infinity or a NaN.
\<close>

datatype float = Finite rat | NegZero | PosInf | NegInf | NaN

datatype tval = IntV int | FloatV float

text \<open>The platform's word size (\<^verbatim>\<open>strconv.IntSize\<close>): a 64-bit platform.\<close>

definition intSize :: nat where
  "intSize = 64"

fun bits :: "kind \<Rightarrow> nat" where
  "bits KInt = intSize"
| "bits KInt8 = 8"
| "bits KInt16 = 16"
| "bits KInt32 = 32"
| "bits KInt64 = 64"
| "bits KUint = intSize"
| "bits KUint8 = 8"
| "bits KUint16 = 16"
| "bits KUint32 = 32"
| "bits KUint64 = 64"
| "bits KUintptr = intSize"
| "bits KFloat32 = 32"
| "bits KFloat64 = 64"

fun is_unsigned :: "kind \<Rightarrow> bool" where
  "is_unsigned KUint = True"
| "is_unsigned KUint8 = True"
| "is_unsigned KUint16 = True"
| "is_unsigned KUint32 = True"
| "is_unsigned KUint64 = True"
| "is_unsigned KUintptr = True"
| "is_unsigned _ = False"

fun is_float :: "kind \<Rightarrow> bool" where
  "is_float KFloat32 = True"
| "is_float KFloat64 = True"
| "is_float _ = False"

text \<open>The zero value of \<^verbatim>\<open>T\<close> (\<^verbatim>\<open>var zero T\<close>).\<close>

definition zeroT :: "kind \<Rightarrow> tval" where
  "zeroT k = (if is_float k then FloatV (Finite 0) else IntV 0)"

subsection \<open>Integers of a fixed width\<close>

text \<open>The range of an integer kind.\<close>

definition minOf :: "kind \<Rightarrow> int" where
  "minOf k = (if is_unsigned k then 0 else - (2 ^ (bits k - 1)))"

definition maxOf :: "kind \<Rightarrow> int" where
  "maxOf k = (if is_unsigned k then 2 ^ bits k - 1 else 2 ^ (bits k - 1) - 1)"

definition inRange :: "kind \<Rightarrow> int \<Rightarrow> bool" where
  "inRange k v = (minOf k \<le> v \<and> v \<le> maxOf k)"

text \<open>
  The conversion \<^verbatim>\<open>T(x)\<close> of an integer to the integer kind \<open>k\<close>, which is also what the
  result of \<^verbatim>\<open>+\<close>, \<^verbatim>\<open>-\<close>, \<^verbatim>\<open>*\<close> on two values of kind \<open>k\<close> goes through: the low \<open>bits k\<close>
  bits, read as unsigned or as two's complement.
\<close>

definition convT :: "kind \<Rightarrow> int \<Rightarrow> int" where
  "convT k x =
     (if is_unsigned k then x mod 2 ^ bits k
      else (x + 2 ^ (bits k - 1)) mod 2 ^ bits k - 2 ^ (bits k - 1))"

text \<open>Go's integer quotient \<^verbatim>\<open>x / y\<close> truncates towards zero.\<close>

definition quo :: "int \<Rightarrow> int \<Rightarrow> int" where
  "quo x y = sgn x * sgn y * (\<bar>x\<bar> div \<bar>y\<bar>)"

subsection \<open>Floating-point numbers\<close>

text \<open>
  The comparisons \<^verbatim>\<open>==\<close>, \<^verbatim>\<open><\<close> and \<^verbatim>\<open><=\<close> of IEEE 754: a NaN compares false with
  everything, the two zeros are equal, and the infinities lie below and above every finite
  number.
\<close>

fun fclass :: "float \<Rightarrow> int" where
  "fclass NegInf = - 1"
| "fclass PosInf = 1"
| "fclass _ = 0"

fun fmag :: "float \<Rightarrow> rat" where
  "fmag (Finite r) = r"
| "fmag _ = 0"

definition feq :: "float \<Rightarrow> float \<Rightarrow> bool" where
  "feq x y = (x \<noteq> NaN \<and> y \<noteq> NaN \<and> fclass x = fclass y \<and> fmag x = fmag y)"

definition flt :: "float \<Rightarrow> float \<Rightarrow> bool" where
  "flt x y =
     (x \<noteq> NaN \<and> y \<noteq> NaN \<and> (fclass x < fclass y \<or> (fclass x = fclass y \<and> fmag x < fmag y)))"

definition fle :: "float \<Rightarrow> float \<Rightarrow> bool" where
  "fle x y = (flt x y \<or> feq x y)"

fun fabs :: "float \<Rightarrow> float" where
  "fabs (Finite r) = Finite \<bar>r\<bar>"
| "fabs NegZero = Finite 0"
| "fabs NegInf = PosInf"
| "fabs x = x"

text \<open>The constants \<^verbatim>\<open>math.MaxFloat32\<close>, its negation, and \<^verbatim>\<open>math.MaxFloat64\<close>.\<close>

definition MaxFloat32 :: float where
  "MaxFloat32 = Finite ((2 ^ 24 - 1) * 2 ^ 104)"

definition MinusMaxFloat32 :: float where
  "MinusMaxFloat32 = Finite (- ((2 ^ 24 - 1) * 2 ^ 104))"

definition MaxFloat64 :: float where
  "MaxFloat64 = Finite ((2 ^ 53 - 1) * 2 ^ 971)"

text \<open>
  Rounding to the nearest number of a float kind, ties to even, as IEEE 754 prescribes for
  arithmetic and for conversions: \<open>prec k\<close> binary digits, exponents up to \<open>emax k\<close>,
  subnormal numbers below \<open>2\<close> to the \<open>1 - emax k\<close>, and an infinity when the rounded
  number has an exponent above \<open>emax k\<close>.
\<close>

definition prec :: "kind \<Rightarrow> int" where
  "prec k = (if k = KFloat32 then 24 else 53)"

definition emax :: "kind \<Rightarrow> int" where
  "emax k = (if k = KFloat32 then 127 else 1023)"

function pow2 :: "int \<Rightarrow> rat" where
  "pow2 e = (if e = 0 then 1 else if 0 < e then 2 * pow2 (e - 1) else pow2 (e + 1) / 2)"
  by pat_completeness auto
termination
  by (relation "measure (\<lambda>e. nat \<bar>e\<bar>)") auto

declare pow2.simps [simp del]

function bitlen :: "int \<Rightarrow> int" where
  "bitlen n = (if n \<le> 0 then 0 else 1 + bitlen (n div 2))"
  by pat_completeness auto
termination
  by (relation "measure nat") auto

declare bitlen.simps [simp del]

text \<open>The exponent of a positive rational: the integer part of its binary logarithm.\<close>

definition ilog2 :: "rat \<Rightarrow> int" where
  "ilog2 x =
     (let (n, d) = quotient_of x; e = bitlen n - bitlen d
      in if pow2 e \<le> x then e else e - 1)"

definition roundEven :: "rat \<Rightarrow> int" where
  "roundEven x =
     (let f = \<lfloor>x\<rfloor>; d = x - of_int f
      in if d < 1 / 2 then f
         else if 1 / 2 < d then f + 1
         else if even f then f else f + 1)"

definition roundTo :: "kind \<Rightarrow> rat \<Rightarrow> float" where
  "roundTo k x =
     (let a = \<bar>x\<bar>;
          e = max (ilog2 a) (1 - emax k);
          q = pow2 (e - prec k + 1);
          m = roundEven (a / q);
          y = of_int m * q
      in if emax k < ilog2 y then (if x < 0 then NegInf else PosInf)
         else if m = 0 then (if x < 0 then NegZero else Finite 0)
         else Finite (if x < 0 then - y else y))"

text \<open>
  The conversion \<^verbatim>\<open>T(x)\<close> of a \<^verbatim>\<open>float64\<close> to the float kind \<open>k\<close>: \<^verbatim>\<open>float32\<close> rounds.
\<close>

definition convF :: "kind \<Rightarrow> float \<Rightarrow> float" where
  "convF k x =
     (if k = KFloat32
      then (case x of Finite r \<Rightarrow> if r = 0 then Finite 0 else roundTo KFloat32 r | _ \<Rightarrow> x)
      else x)"

text \<open>
  The values of a float kind: the zeros, the infinities, the NaN, and the finite numbers
  that rounding to the kind leaves as they are.
\<close>

definition maxFinite :: "kind \<Rightarrow> rat" where
  "maxFinite k = (if k = KFloat32 then fmag MaxFloat32 else fmag MaxFloat64)"

definition isFloatOf :: "kind \<Rightarrow> float \<Rightarrow> bool" where
  "isFloatOf k x =
     (case x of
        Finite r \<Rightarrow> r = 0 \<or> (\<bar>r\<bar> \<le> maxFinite k \<and> roundTo k r = Finite r)
      | _ \<Rightarrow> True)"

text \<open>
  The IEEE 754 sum in the float kind \<open>k\<close>, the \<^verbatim>\<open>+\<close> of Go on \<^verbatim>\<open>float32\<close> and \<^verbatim>\<open>float64\<close>:
  the exact sum, rounded; infinities of opposite sign give a NaN; an exact zero sum is
  the positive zero unless both operands are the negative zero.
\<close>

fun ieee_add :: "kind \<Rightarrow> float \<Rightarrow> float \<Rightarrow> float" where
  "ieee_add k NaN y = NaN"
| "ieee_add k x NaN = NaN"
| "ieee_add k PosInf NegInf = NaN"
| "ieee_add k NegInf PosInf = NaN"
| "ieee_add k PosInf y = PosInf"
| "ieee_add k x PosInf = PosInf"
| "ieee_add k NegInf y = NegInf"
| "ieee_add k x NegInf = NegInf"
| "ieee_add k NegZero NegZero = NegZero"
| "ieee_add k NegZero (Finite b) = Finite b"
| "ieee_add k (Finite a) NegZero = Finite a"
| "ieee_add k (Finite a) (Finite b) = (if a + b = 0 then Finite 0 else roundTo k (a + b))"

subsection \<open>The built-in operations of Go on values of \<^verbatim>\<open>T\<close>\<close>

text \<open>
  The comparisons, and the test \<^verbatim>\<open>v == 0\<close>. Both operands of an operator have the type
  \<^verbatim>\<open>T\<close>, so that an integer never meets a floating-point number; the equations for that
  case are there for totality only.
\<close>

fun veq :: "tval \<Rightarrow> tval \<Rightarrow> bool" where
  "veq (IntV a) (IntV b) = (a = b)"
| "veq (FloatV x) (FloatV y) = feq x y"
| "veq _ _ = False"

fun vlt :: "tval \<Rightarrow> tval \<Rightarrow> bool" where
  "vlt (IntV a) (IntV b) = (a < b)"
| "vlt (FloatV x) (FloatV y) = flt x y"
| "vlt _ _ = False"

fun vle :: "tval \<Rightarrow> tval \<Rightarrow> bool" where
  "vle (IntV a) (IntV b) = (a \<le> b)"
| "vle (FloatV x) (FloatV y) = fle x y"
| "vle _ _ = False"

fun visZero :: "tval \<Rightarrow> bool" where
  "visZero (IntV a) = (a = 0)"
| "visZero (FloatV x) = feq x (Finite 0)"




fun vquo :: "(float \<Rightarrow> float \<Rightarrow> float) \<Rightarrow> kind \<Rightarrow> tval \<Rightarrow> tval \<Rightarrow> tval" where
  "vquo fdiv k (IntV a) (IntV b) = IntV (convT k (quo a b))"
| "vquo fdiv k (FloatV x) (FloatV y) = FloatV (fdiv x y)"
| "vquo fdiv k a b = zeroT k"

section \<open>The Numeric wrapper\<close>

text \<open>
  \<^verbatim>\<open>sql.Null[T]\<close> is the pair of a value and its valid flag; \<^verbatim>\<open>Numeric[T]\<close> adds the
  \<^verbatim>\<open>unmarshaled\<close> flag. Methods with a pointer receiver return the updated wrapper.
\<close>

record 'a Null =
  V :: 'a
  Valid :: bool

record Numeric =
  val :: "tval Null"
  unmarshaled :: bool

datatype error =
  ErrSyntax
  | ErrRange
  | Overflows kind
  | CannotDivideByZero
  | CannotCompareNull
  | JSONUnmarshalError
  | JSONUnsupportedValue
  | UnsupportedType
  | HighBitSet
  | ParseDurationError

text \<open>What a call that may panic does: it returns a value or it aborts with the error.\<close>

datatype 'a outcome = Returns 'a | Panics error

definition NewNumber :: "tval \<Rightarrow> Numeric" where
  "NewNumber v = \<lparr>val = \<lparr>V = v, Valid = True\<rparr>, unmarshaled = False\<rparr>"

definition NewNullNumber :: "kind \<Rightarrow> Numeric" where
  "NewNullNumber k = \<lparr>val = \<lparr>V = zeroT k, Valid = False\<rparr>, unmarshaled = False\<rparr>"

definition NewNullNumberIfZero :: "kind \<Rightarrow> tval \<Rightarrow> Numeric" where
  "NewNullNumberIfZero k v = (if visZero v then NewNullNumber k else NewNumber v)"

definition Numeric_Get :: "Numeric \<Rightarrow> tval" where
  "Numeric_Get n = V (val n)"

definition Numeric_Set :: "Numeric \<Rightarrow> tval \<Rightarrow> Numeric" where
  "Numeric_Set n v = n\<lparr>val := (val n)\<lparr>V := v, Valid := True\<rparr>\<rparr>"

definition Numeric_SetNull :: "kind \<Rightarrow> Numeric \<Rightarrow> Numeric" where
  "Numeric_SetNull k n = n\<lparr>val := (val n)\<lparr>V := zeroT k, Valid := False\<rparr>\<rparr>"

definition Numeric_IsNull :: "Numeric \<Rightarrow> bool" where
  "Numeric_IsNull n = (\<not> Valid (val n))"

definition Numeric_SetUnmarshaled :: "Numeric \<Rightarrow> bool \<Rightarrow> Numeric" where
  "Numeric_SetUnmarshaled n b = n\<lparr>unmarshaled := b\<rparr>"

definition Numeric_Equal :: "Numeric \<Rightarrow> Numeric \<Rightarrow> bool" where
  "Numeric_Equal n other =
     (Valid (val n) = Valid (val other) \<and> veq (V (val n)) (V (val other)))"

definition Numeric_EqualRaw :: "Numeric \<Rightarrow> tval \<Rightarrow> bool" where
  "Numeric_EqualRaw n other = veq (V (val n)) other"

subsection \<open>Arithmetic\<close>




text \<open>
  \<^verbatim>\<open>SafeDiv\<close> returns the pair of the result and the error (\<open>None\<close> for \<^verbatim>\<open>nil\<close>);
  \<^verbatim>\<open>Div\<close> panics with the error \<^verbatim>\<open>SafeDiv\<close> returns.
\<close>

definition Numeric_SafeDiv ::
    "(float \<Rightarrow> float \<Rightarrow> float) \<Rightarrow> kind \<Rightarrow> Numeric \<Rightarrow> Numeric \<Rightarrow> Numeric \<times> error option" where
  "Numeric_SafeDiv fdiv k n other =
     (if \<not> Valid (val other) \<or> visZero (V (val other))
      then (NewNullNumber k, Some CannotDivideByZero)
      else (NewNumber (vquo fdiv k (V (val n)) (V (val other))), None))"

definition Numeric_Div ::
    "(float \<Rightarrow> float \<Rightarrow> float) \<Rightarrow> kind \<Rightarrow> Numeric \<Rightarrow> Numeric \<Rightarrow> Numeric outcome" where
  "Numeric_Div fdiv k n other =
     (case Numeric_SafeDiv fdiv k n other of
        (r, Some err) \<Rightarrow> Panics err
      | (r, None) \<Rightarrow> Returns r)"

subsection \<open>Comparison\<close>

definition Numeric_Compare :: "Numeric \<Rightarrow> Numeric \<Rightarrow> int \<times> error option" where
  "Numeric_Compare n other =
     (if \<not> Valid (val n) \<or> \<not> Valid (val other) then (0, Some CannotCompareNull)
      else if vlt (V (val n)) (V (val other)) then (- 1, None)
      else if vlt (V (val other)) (V (val n)) then (1, None)
      else (0, None))"

definition Numeric_Greater :: "Numeric \<Rightarrow> Numeric \<Rightarrow> bool" where
  "Numeric_Greater n other =
     (if \<not> Valid (val n) \<or> \<not> Valid (val other) then False
      else vlt (V (val other)) (V (val n)))"

definition Numeric_GreaterOrEqual :: "Numeric \<Rightarrow> Numeric \<Rightarrow> bool" where
  "Numeric_GreaterOrEqual n other =
     (if \<not> Valid (val n) \<or> \<not> Valid (val other) then False
      else vle (V (val other)) (V (val n)))"

definition Numeric_Less :: "Numeric \<Rightarrow> Numeric \<Rightarrow> bool" where
  "Numeric_Less n other =
     (if \<not> Valid (val n) \<or> \<not> Valid (val other) then False
      else vlt (V (val n)) (V (val other)))"

definition Numeric_LessOrEqual :: "Numeric \<Rightarrow> Numeric \<Rightarrow> bool" where
  "Numeric_LessOrEqual n other =
     (if \<not> Valid (val n) \<or> \<not> Valid (val other) then False
      else vle (V (val n)) (V (val other)))"

section \<open>The standard library's decimal conversions\<close>

text \<open>
  The text codec goes through Go's \<^verbatim>\<open>strconv\<close> and \<^verbatim>\<open>fmt\<close> packages, which are not part
  of the repository. They are modelled after the library's source, for the arguments the
  repository passes: base 10 and a bit size of 64. A \<^verbatim>\<open>[]byte\<close> or \<^verbatim>\<open>string\<close> is a list of
  bytes; a \<^verbatim>\<open>uint64\<close> is an \<open>int\<close> between 0 and \<open>maxUint64\<close>, with the wrap-around of
  the one sum that can overflow written out.
\<close>

definition isDigit :: "char \<Rightarrow> bool" where
  "isDigit c = (48 \<le> (of_char c :: int) \<and> (of_char c :: int) \<le> 57)"

definition digitVal :: "char \<Rightarrow> int" where
  "digitVal c = of_char c - 48"

definition digitChar :: "int \<Rightarrow> char" where
  "digitChar d = char_of (48 + d)"

definition maxUint64 :: int where
  "maxUint64 = 2 ^ 64 - 1"

text \<open>
  The loop of \<^verbatim>\<open>strconv.ParseUint\<close>: a byte that is not a decimal digit is a syntax error;
  \<open>n\<close> at or above the cutoff would overflow on multiplying by ten, and the sum with the
  digit may wrap around 64 bits; both are range errors.
\<close>

fun ParseUint_loop :: "int \<Rightarrow> string \<Rightarrow> error + int" where
  "ParseUint_loop n [] = Inr n"
| "ParseUint_loop n (c # cs) =
     (if \<not> isDigit c then Inl ErrSyntax
      else if n \<ge> maxUint64 div 10 + 1 then Inl ErrRange
      else let n10 = n * 10; n1 = (n10 + digitVal c) mod 2 ^ 64
           in if n1 < n10 \<or> n1 > maxUint64 then Inl ErrRange
              else ParseUint_loop n1 cs)"

definition ParseUint :: "string \<Rightarrow> error + int" where
  "ParseUint s = (if s = [] then Inl ErrSyntax else ParseUint_loop 0 s)"

text \<open>
  \<^verbatim>\<open>strconv.ParseInt\<close>: an optional sign, then \<^verbatim>\<open>ParseUint\<close>, then the check against
  \<open>2 ^ 63\<close>. On a range error \<^verbatim>\<open>ParseUint\<close> hands back the largest value, which fails
  that check in turn.
\<close>

definition ParseInt_finish :: "bool \<Rightarrow> int \<Rightarrow> error + int" where
  "ParseInt_finish neg un =
     (if \<not> neg \<and> un \<ge> 2 ^ 63 then Inl ErrRange
      else if neg \<and> un > 2 ^ 63 then Inl ErrRange
      else Inr (if neg then - un else un))"

definition ParseInt :: "string \<Rightarrow> error + int" where
  "ParseInt s =
     (case s of
        [] \<Rightarrow> Inl ErrSyntax
      | c # cs \<Rightarrow>
          let neg = (c = CHR ''-'');
              s1 = (if c = CHR ''+'' \<or> c = CHR ''-'' then cs else s)
          in case ParseUint s1 of
               Inl err \<Rightarrow> if err \<noteq> ErrRange then Inl err else ParseInt_finish neg maxUint64
             | Inr un \<Rightarrow> ParseInt_finish neg un)"

text \<open>\<^verbatim>\<open>strconv.FormatUint\<close> and \<^verbatim>\<open>strconv.FormatInt\<close> in base 10, which \<^verbatim>\<open>%v\<close> prints.\<close>

function FormatUint :: "int \<Rightarrow> string" where
  "FormatUint n =
     (if n < 10 then [digitChar n] else FormatUint (n div 10) @ [digitChar (n mod 10)])"
  by pat_completeness auto
termination
  by (relation "measure nat") auto

declare FormatUint.simps [simp del]

definition FormatInt :: "int \<Rightarrow> string" where
  "FormatInt i = (if i < 0 then CHR ''-'' # FormatUint (- i) else FormatUint i)"

text \<open>
  The verb \<^verbatim>\<open>%f\<close> of \<^verbatim>\<open>fmt\<close> on a floating-point number: the exact value rounded to six
  decimals, ties to even, with a minus sign for a negative number and for the negative
  zero.
\<close>

definition digits6 :: "int \<Rightarrow> string" where
  "digits6 f =
     [digitChar (f div 100000 mod 10), digitChar (f div 10000 mod 10),
      digitChar (f div 1000 mod 10), digitChar (f div 100 mod 10),
      digitChar (f div 10 mod 10), digitChar (f mod 10)]"

definition FormatF :: "float \<Rightarrow> string" where
  "FormatF x =
     (case x of
        Finite r \<Rightarrow>
          (let n = roundEven (\<bar>r\<bar> * 1000000)
           in (if r < 0 then ''-'' else []) @ FormatUint (n div 1000000) @ ''.''
              @ digits6 (n mod 1000000))
      | NegZero \<Rightarrow> ''-0.000000''
      | PosInf \<Rightarrow> ''+Inf''
      | NegInf \<Rightarrow> ''-Inf''
      | NaN \<Rightarrow> ''NaN'')"

text \<open>
  The verb \<^verbatim>\<open>%v\<close> goes by the type \<^verbatim>\<open>T\<close> of its operand. \<^verbatim>\<open>NumberType\<close> admits the
  predeclared numeric types and every type defined over one of them; a defined type may
  have a \<^verbatim>\<open>Format\<close>, \<^verbatim>\<open>Error\<close> or \<^verbatim>\<open>String\<close> method, and then \<^verbatim>\<open>%v\<close> prints what that method
  returns. Without such a method an integer is printed in decimal (\<open>fmtInteger\<close>, by
  \<^verbatim>\<open>FormatUint\<close> for an unsigned kind and by \<^verbatim>\<open>FormatInt\<close> for a signed one), and a floating-point
  number in the shortest form that reads back at its bit size, a library function which
  is the parameter \<open>fmtG\<close> here (it takes the bit size and the number).
\<close>

datatype ttype = Predeclared | Defined "(tval \<Rightarrow> string) option"

fun printsThrough :: "ttype \<Rightarrow> bool" where
  "printsThrough (Defined (Some m)) = True"
| "printsThrough _ = False"

definition fmtInteger :: "kind \<Rightarrow> int \<Rightarrow> string" where
  "fmtInteger k i = (if is_unsigned k then FormatUint i else FormatInt i)"

definition percentV :: "(nat \<Rightarrow> float \<Rightarrow> string) \<Rightarrow> ttype \<Rightarrow> kind \<Rightarrow> tval \<Rightarrow> string" where
  "percentV fmtG t k v =
     (case t of
        Defined (Some m) \<Rightarrow> m v
      | _ \<Rightarrow>
          (case v of
             IntV i \<Rightarrow> fmtInteger k i
           | FloatV x \<Rightarrow> fmtG (bits k) x))"

section \<open>The text codec\<close>

text \<open>The constants of package \<^verbatim>\<open>math\<close> that the range checks use.\<close>

definition MaxUint :: int where
  "MaxUint = 2 ^ intSize - 1"

definition MaxUint8 :: int where
  "MaxUint8 = 255"

definition MaxUint16 :: int where
  "MaxUint16 = 65535"

definition MaxUint32 :: int where
  "MaxUint32 = 4294967295"

definition MaxInt :: int where
  "MaxInt = 2 ^ (intSize - 1) - 1"

definition MinInt :: int where
  "MinInt = - (2 ^ (intSize - 1))"

definition MaxInt8 :: int where
  "MaxInt8 = 127"

definition MinInt8 :: int where
  "MinInt8 = - 128"

definition MaxInt16 :: int where
  "MaxInt16 = 32767"

definition MinInt16 :: int where
  "MinInt16 = - 32768"

definition MaxInt32 :: int where
  "MaxInt32 = 2147483647"

definition MinInt32 :: int where
  "MinInt32 = - 2147483648"

text \<open>
  The \<^verbatim>\<open>switch kind\<close> of \<^verbatim>\<open>parseUint\<close> and of \<^verbatim>\<open>parseInt\<close>: the error of the case that
  matches, if its bound is exceeded. A kind with no case passes.
\<close>

fun uintOverflow :: "kind \<Rightarrow> int \<Rightarrow> error option" where
  "uintOverflow KUint parsed = (if parsed > MaxUint then Some (Overflows KUint) else None)"
| "uintOverflow KUint8 parsed = (if parsed > MaxUint8 then Some (Overflows KUint8) else None)"
| "uintOverflow KUint16 parsed = (if parsed > MaxUint16 then Some (Overflows KUint16) else None)"
| "uintOverflow KUint32 parsed = (if parsed > MaxUint32 then Some (Overflows KUint32) else None)"
| "uintOverflow _ parsed = None"

fun intOverflow :: "kind \<Rightarrow> int \<Rightarrow> error option" where
  "intOverflow KInt parsed =
     (if parsed > MaxInt \<or> parsed < MinInt then Some (Overflows KInt) else None)"
| "intOverflow KInt8 parsed =
     (if parsed > MaxInt8 \<or> parsed < MinInt8 then Some (Overflows KInt8) else None)"
| "intOverflow KInt16 parsed =
     (if parsed > MaxInt16 \<or> parsed < MinInt16 then Some (Overflows KInt16) else None)"
| "intOverflow KInt32 parsed =
     (if parsed > MaxInt32 \<or> parsed < MinInt32 then Some (Overflows KInt32) else None)"
| "intOverflow _ parsed = None"

definition parseUint :: "kind \<Rightarrow> string \<Rightarrow> error + tval" where
  "parseUint k data =
     (case ParseUint data of
        Inl err \<Rightarrow> Inl err
      | Inr parsed \<Rightarrow>
          (case uintOverflow k parsed of
             Some err \<Rightarrow> Inl err
           | None \<Rightarrow> Inr (IntV (convT k parsed))))"

definition parseInt :: "kind \<Rightarrow> string \<Rightarrow> error + tval" where
  "parseInt k data =
     (case ParseInt data of
        Inl err \<Rightarrow> Inl err
      | Inr parsed \<Rightarrow>
          (case intOverflow k parsed of
             Some err \<Rightarrow> Inl err
           | None \<Rightarrow> Inr (IntV (convT k parsed))))"

text \<open>
  \<^verbatim>\<open>parseFloat\<close> calls \<^verbatim>\<open>strconv.ParseFloat\<close> with a bit size of 64. That library function
  is the parameter \<open>ParseFloat\<close>, which takes the bit size and the text.
\<close>

definition parseFloat :: "(nat \<Rightarrow> string \<Rightarrow> error + float) \<Rightarrow> kind \<Rightarrow> string \<Rightarrow> error + tval" where
  "parseFloat ParseFloat k data =
     (case ParseFloat 64 data of
        Inl err \<Rightarrow> Inl err
      | Inr parsed \<Rightarrow>
          if k = KFloat32 \<and> (flt MaxFloat32 parsed \<or> flt parsed MinusMaxFloat32)
          then Inl (Overflows KFloat32)
          else Inr (FloatV (convF k parsed)))"

text \<open>
  The \<^verbatim>\<open>switch kind\<close> of \<^verbatim>\<open>UnmarshalText\<close>: its first \<^verbatim>\<open>case\<close> lists five unsigned kinds,
  its second the two float kinds; every other kind takes the \<^verbatim>\<open>default\<close> branch,
  \<^verbatim>\<open>parseInt\<close>.
\<close>

fun uintCase :: "kind \<Rightarrow> bool" where
  "uintCase KUint = True"
| "uintCase KUint8 = True"
| "uintCase KUint16 = True"
| "uintCase KUint32 = True"
| "uintCase KUint64 = True"
| "uintCase _ = False"

definition Numeric_UnmarshalText ::
    "(nat \<Rightarrow> string \<Rightarrow> error + float) \<Rightarrow> kind \<Rightarrow> Numeric \<Rightarrow> string
      \<Rightarrow> Numeric \<times> error option" where
  "Numeric_UnmarshalText ParseFloat k n data =
     (let n1 = n\<lparr>unmarshaled := True\<rparr>
      in if length data = 0 then (n1\<lparr>val := (val n1)\<lparr>Valid := False\<rparr>\<rparr>, None)
         else (case (if uintCase k then parseUint k data
                     else if is_float k then parseFloat ParseFloat k data
                     else parseInt k data) of
                 Inl err \<Rightarrow> (n1, Some err)
               | Inr v \<Rightarrow> (n1\<lparr>val := (val n1)\<lparr>V := v, Valid := True\<rparr>\<rparr>, None)))"

text \<open>
  The type switch of \<^verbatim>\<open>String\<close> matches the types \<^verbatim>\<open>float32\<close> and \<^verbatim>\<open>float64\<close> themselves,
  which are printed with \<^verbatim>\<open>%f\<close>; every other type is printed with \<^verbatim>\<open>%v\<close>.
\<close>

definition Numeric_String ::
    "(nat \<Rightarrow> float \<Rightarrow> string) \<Rightarrow> ttype \<Rightarrow> kind \<Rightarrow> Numeric \<Rightarrow> string" where
  "Numeric_String fmtG t k n =
     (if \<not> Valid (val n) then ''<NULL>''
      else (case (t, V (val n)) of
              (Predeclared, FloatV x) \<Rightarrow> FormatF x
            | _ \<Rightarrow> percentV fmtG t k (V (val n))))"

definition Numeric_MarshalText ::
    "(nat \<Rightarrow> float \<Rightarrow> string) \<Rightarrow> ttype \<Rightarrow> kind \<Rightarrow> Numeric
      \<Rightarrow> string \<times> error option" where
  "Numeric_MarshalText fmtG t k n =
     (if Valid (val n) then (Numeric_String fmtG t k n, None) else ([], None))"

section \<open>The tagged-literal codec\<close>

text \<open>
  \<^verbatim>\<open>json.Marshal\<close> and \<^verbatim>\<open>json.Unmarshal\<close> of \<^verbatim>\<open>encoding/json\<close>, which is not part of the
  repository, modelled after the library's source for a value of a numeric type that
  implements none of the marshalling interfaces. An integer is encoded as its decimal
  form. A finite floating-point number is encoded by a library function, the parameter
  \<open>jsonFloat\<close> (of the bit size and the number); an infinity or a NaN is refused with an error. Decoding first checks that
  the input is one JSON value between optional white space, then stores a number literal
  through \<^verbatim>\<open>ParseInt\<close>, \<^verbatim>\<open>ParseUint\<close> or \<^verbatim>\<open>ParseFloat\<close> (with the bit size of the kind) and
  the range of the kind; the literal \<^verbatim>\<open>null\<close> leaves the target as it is (\<open>Inr None\<close>);
  every other input is an error (a syntax error or a type error, not told apart here).
\<close>

definition isSpace :: "char \<Rightarrow> bool" where
  "isSpace c = (c = CHR '' '' \<or> c = CHR 0x09 \<or> c = CHR 0x0A \<or> c = CHR 0x0D)"

definition trimSpace :: "string \<Rightarrow> string" where
  "trimSpace s = rev (dropWhile isSpace (rev (dropWhile isSpace s)))"

definition scanSign :: "string \<Rightarrow> string" where
  "scanSign s = (case s of [] \<Rightarrow> s | c # r \<Rightarrow> if c = CHR ''-'' then r else s)"

definition scanInt :: "string \<Rightarrow> string option" where
  "scanInt s =
     (case s of
        [] \<Rightarrow> None
      | c # r \<Rightarrow>
          if c = CHR ''0'' then Some r
          else if isDigit c then Some (dropWhile isDigit r)
          else None)"

definition scanDigits1 :: "string \<Rightarrow> string option" where
  "scanDigits1 s =
     (case s of
        [] \<Rightarrow> None
      | d # r \<Rightarrow> if isDigit d then Some (dropWhile isDigit r) else None)"

definition scanFrac :: "string \<Rightarrow> string option" where
  "scanFrac s =
     (case s of
        [] \<Rightarrow> Some s
      | c # r \<Rightarrow> if c = CHR ''.'' then scanDigits1 r else Some s)"

definition scanExp :: "string \<Rightarrow> string option" where
  "scanExp s =
     (case s of
        [] \<Rightarrow> Some s
      | c # r \<Rightarrow>
          if c = CHR ''e'' \<or> c = CHR ''E'' then
            (case r of
               [] \<Rightarrow> None
             | x # r' \<Rightarrow> if x = CHR ''+'' \<or> x = CHR ''-'' then scanDigits1 r' else scanDigits1 r)
          else Some s)"

definition validNumber :: "string \<Rightarrow> bool" where
  "validNumber s =
     (case scanInt (scanSign s) of
        None \<Rightarrow> False
      | Some r1 \<Rightarrow>
          (case scanFrac r1 of
             None \<Rightarrow> False
           | Some r2 \<Rightarrow> (case scanExp r2 of None \<Rightarrow> False | Some r3 \<Rightarrow> r3 = [])))"

text \<open>\<^verbatim>\<open>reflect.Value.OverflowFloat\<close>, which only a \<^verbatim>\<open>float32\<close> can answer with true.\<close>

definition overflowFloat :: "kind \<Rightarrow> float \<Rightarrow> bool" where
  "overflowFloat k x = (k = KFloat32 \<and> flt MaxFloat32 (fabs x) \<and> fle (fabs x) MaxFloat64)"

definition jsonUnmarshal ::
    "(nat \<Rightarrow> string \<Rightarrow> error + float) \<Rightarrow> kind \<Rightarrow> string \<Rightarrow> error + tval option" where
  "jsonUnmarshal ParseFloat k data =
     (let s = trimSpace data
      in if s = ''null'' then Inr None
         else if \<not> validNumber s then Inl JSONUnmarshalError
         else if is_float k then
           (case ParseFloat (bits k) s of
              Inl err \<Rightarrow> Inl JSONUnmarshalError
            | Inr x \<Rightarrow>
                if overflowFloat k x then Inl JSONUnmarshalError
                else Inr (Some (FloatV (convF k x))))
         else if is_unsigned k then
           (case ParseUint s of
              Inl err \<Rightarrow> Inl JSONUnmarshalError
            | Inr u \<Rightarrow> if u > maxOf k then Inl JSONUnmarshalError else Inr (Some (IntV u)))
         else
           (case ParseInt s of
              Inl err \<Rightarrow> Inl JSONUnmarshalError
            | Inr i \<Rightarrow>
                if i < minOf k \<or> maxOf k < i then Inl JSONUnmarshalError
                else Inr (Some (IntV i))))"

definition jsonMarshal :: "(nat \<Rightarrow> float \<Rightarrow> string) \<Rightarrow> kind \<Rightarrow> tval \<Rightarrow> error + string" where
  "jsonMarshal jsonFloat k v =
     (case v of
        IntV i \<Rightarrow> Inr (fmtInteger k i)
      | FloatV x \<Rightarrow>
          (case x of
             PosInf \<Rightarrow> Inl JSONUnsupportedValue
           | NegInf \<Rightarrow> Inl JSONUnsupportedValue
           | NaN \<Rightarrow> Inl JSONUnsupportedValue
           | _ \<Rightarrow> Inr (jsonFloat (bits k) x)))"

definition Numeric_MarshalJSON ::
    "(nat \<Rightarrow> float \<Rightarrow> string) \<Rightarrow> kind \<Rightarrow> Numeric \<Rightarrow> string \<times> error option" where
  "Numeric_MarshalJSON jsonFloat k n =
     (if Valid (val n)
      then (case jsonMarshal jsonFloat k (V (val n)) of
              Inl err \<Rightarrow> ([], Some err)
            | Inr s \<Rightarrow> (s, None))
      else (''null'', None))"

text \<open>The local \<^verbatim>\<open>var value T\<close> starts at zero, and \<^verbatim>\<open>json.Unmarshal\<close> writes into it.\<close>

definition Numeric_UnmarshalJSON ::
    "(nat \<Rightarrow> string \<Rightarrow> error + float) \<Rightarrow> kind \<Rightarrow> Numeric \<Rightarrow> string
      \<Rightarrow> Numeric \<times> error option" where
  "Numeric_UnmarshalJSON ParseFloat k n data =
     (let n1 = n\<lparr>unmarshaled := True\<rparr>
      in if data = ''null'' then (n1\<lparr>val := (val n1)\<lparr>Valid := False, V := zeroT k\<rparr>\<rparr>, None)
         else (case jsonUnmarshal ParseFloat k data of
                 Inl err \<Rightarrow> (n1\<lparr>val := (val n1)\<lparr>Valid := False\<rparr>\<rparr>, Some err)
               | Inr r \<Rightarrow>
                   (n1\<lparr>val := (val n1)\<lparr>Valid := True,
                                        V := (case r of None \<Rightarrow> zeroT k | Some v \<Rightarrow> v)\<rparr>\<rparr>,
                    None)))"

section \<open>The storage bridge\<close>

text \<open>
  The dynamically typed argument of \<^verbatim>\<open>Scan\<close>: \<^verbatim>\<open>nil\<close>, an \<^verbatim>\<open>int64\<close>, a \<^verbatim>\<open>string\<close>, or a
  value of any other type. A \<^verbatim>\<open>driver.Value\<close> is \<^verbatim>\<open>nil\<close>, an \<^verbatim>\<open>int64\<close> or a \<^verbatim>\<open>float64\<close>
  (the other driver types do not come from a number).
\<close>

datatype any = AnyNil | AnyInt64 int | AnyString string | AnyOther

datatype driverValue = DriverNil | DriverInt64 int | DriverFloat64 float

text \<open>
  \<^verbatim>\<open>Numeric.Scan\<close> and \<^verbatim>\<open>Numeric.Value\<close> hand over to \<^verbatim>\<open>sql.Null[T]\<close> of \<^verbatim>\<open>database/sql\<close>,
  which is not part of the repository. \<^verbatim>\<open>Null[T].Scan\<close> resets the pair on \<^verbatim>\<open>nil\<close>, and
  otherwise sets the valid flag and assigns through the library's conversion, which is the
  parameter \<open>convertAssign\<close> here.
\<close>

definition Null_Scan ::
    "(any \<Rightarrow> error + 'a) \<Rightarrow> 'a \<Rightarrow> 'a Null \<Rightarrow> any \<Rightarrow> 'a Null \<times> error option" where
  "Null_Scan convertAssign zero n x =
     (if x = AnyNil then (n\<lparr>V := zero, Valid := False\<rparr>, None)
      else let n1 = n\<lparr>Valid := True\<rparr>
           in (case convertAssign x of
                 Inl err \<Rightarrow> (n1, Some err)
               | Inr v \<Rightarrow> (n1\<lparr>V := v\<rparr>, None)))"

definition Numeric_Scan ::
    "(any \<Rightarrow> error + tval) \<Rightarrow> kind \<Rightarrow> Numeric \<Rightarrow> any \<Rightarrow> Numeric \<times> error option" where
  "Numeric_Scan convertAssign k n x =
     (case Null_Scan convertAssign (zeroT k) (val n) x of (v, err) \<Rightarrow> (n\<lparr>val := v\<rparr>, err))"

text \<open>
  \<^verbatim>\<open>Null[T].Value\<close> (Go 1.24, the behaviour the repository's tests expect) returns \<^verbatim>\<open>nil\<close>
  for an invalid pair and otherwise the result of
  \<^verbatim>\<open>driver.DefaultParameterConverter.ConvertValue\<close>, which goes by the kind of the value,
  for a type that is no \<^verbatim>\<open>driver.Valuer\<close>: a signed kind gives its value; \<^verbatim>\<open>uint\<close>, \<^verbatim>\<open>uint8\<close>,
  \<^verbatim>\<open>uint16\<close> and \<^verbatim>\<open>uint32\<close> are converted to \<^verbatim>\<open>int64\<close>, which wraps a \<^verbatim>\<open>uint\<close> from \<open>2 ^ 63\<close>
  on; \<^verbatim>\<open>uint64\<close> is refused when its high bit is set and converted otherwise; \<^verbatim>\<open>uintptr\<close>
  has no case and is unsupported; a float kind gives its value as a \<^verbatim>\<open>float64\<close>.
\<close>

fun ConvertValue :: "kind \<Rightarrow> tval \<Rightarrow> error + driverValue" where
  "ConvertValue KInt (IntV v) = Inr (DriverInt64 v)"
| "ConvertValue KInt8 (IntV v) = Inr (DriverInt64 v)"
| "ConvertValue KInt16 (IntV v) = Inr (DriverInt64 v)"
| "ConvertValue KInt32 (IntV v) = Inr (DriverInt64 v)"
| "ConvertValue KInt64 (IntV v) = Inr (DriverInt64 v)"
| "ConvertValue KUint (IntV v) = Inr (DriverInt64 (convT KInt64 v))"
| "ConvertValue KUint8 (IntV v) = Inr (DriverInt64 (convT KInt64 v))"
| "ConvertValue KUint16 (IntV v) = Inr (DriverInt64 (convT KInt64 v))"
| "ConvertValue KUint32 (IntV v) = Inr (DriverInt64 (convT KInt64 v))"
| "ConvertValue KUint64 (IntV v) =
     (if v \<ge> 2 ^ 63 then Inl HighBitSet else Inr (DriverInt64 (convT KInt64 v)))"
| "ConvertValue KFloat32 (FloatV x) = Inr (DriverFloat64 x)"
| "ConvertValue KFloat64 (FloatV x) = Inr (DriverFloat64 x)"
| "ConvertValue k v = Inl UnsupportedType"

definition Null_Value :: "kind \<Rightarrow> tval Null \<Rightarrow> error + driverValue" where
  "Null_Value k n = (if \<not> Valid n then Inr DriverNil else ConvertValue k (V n))"

definition Numeric_Value :: "kind \<Rightarrow> Numeric \<Rightarrow> error + driverValue" where
  "Numeric_Value k n = Null_Value k (val n)"

section \<open>The duration and instant wrappers\<close>

text \<open>
  A \<^verbatim>\<open>time.Duration\<close> is a signed 64-bit count of nanoseconds. \<^verbatim>\<open>time.ParseDuration\<close>
  belongs to the standard library and is the parameter \<open>ParseDuration\<close> of the functions
  that call it.
\<close>

record Duration =
  d_value :: int
  d_valid :: bool
  d_unmarshaled :: bool

definition NewDuration :: "int \<Rightarrow> Duration" where
  "NewDuration v = \<lparr>d_value = v, d_valid = True, d_unmarshaled = False\<rparr>"

definition NewNullDuration :: Duration where
  "NewNullDuration = \<lparr>d_value = 0, d_valid = False, d_unmarshaled = False\<rparr>"

definition Duration_Set :: "Duration \<Rightarrow> int \<Rightarrow> Duration" where
  "Duration_Set d v = d\<lparr>d_value := v, d_valid := True\<rparr>"

definition Duration_SetNull :: "Duration \<Rightarrow> Duration" where
  "Duration_SetNull d = d\<lparr>d_value := 0, d_valid := False\<rparr>"

definition Duration_IsNull :: "Duration \<Rightarrow> bool" where
  "Duration_IsNull d = (\<not> d_valid d)"

definition Duration_Equal :: "Duration \<Rightarrow> Duration \<Rightarrow> bool" where
  "Duration_Equal d other = (d_valid d = d_valid other \<and> d_value d = d_value other)"

definition Duration_EqualRaw :: "Duration \<Rightarrow> int \<Rightarrow> bool" where
  "Duration_EqualRaw d other = (d_valid d \<and> d_value d = other)"

definition Duration_UnmarshalText ::
    "(string \<Rightarrow> error + int) \<Rightarrow> Duration \<Rightarrow> string \<Rightarrow> Duration \<times> error option" where
  "Duration_UnmarshalText ParseDuration d data =
     (let d1 = d\<lparr>d_unmarshaled := True\<rparr>
      in if length data = 0 then (Duration_SetNull d1, None)
         else (case ParseDuration data of
                 Inl err \<Rightarrow> (d1, Some err)
               | Inr dur \<Rightarrow> (d1\<lparr>d_value := dur, d_valid := True\<rparr>, None)))"

definition Duration_Scan ::
    "(string \<Rightarrow> error + int) \<Rightarrow> Duration \<Rightarrow> any \<Rightarrow> Duration \<times> error option" where
  "Duration_Scan ParseDuration d x =
     (case x of
        AnyNil \<Rightarrow> (d\<lparr>d_value := 0, d_valid := False\<rparr>, None)
      | AnyInt64 v \<Rightarrow> (d\<lparr>d_value := v, d_valid := True\<rparr>, None)
      | AnyString v \<Rightarrow>
          (case ParseDuration v of
             Inl err \<Rightarrow> (d, Some err)
           | Inr dur \<Rightarrow> (d\<lparr>d_value := dur, d_valid := True\<rparr>, None))
      | AnyOther \<Rightarrow> (d, Some UnsupportedType))"

definition Duration_Value :: "Duration \<Rightarrow> error + driverValue" where
  "Duration_Value d = (if \<not> d_valid d then Inr DriverNil else Inr (DriverInt64 (d_value d)))"

text \<open>
  The instant wrapper holds a \<^verbatim>\<open>sql.NullTime\<close>. The type of instants \<^verbatim>\<open>time.Time\<close>, its
  zero value and its method \<^verbatim>\<open>Equal\<close> belong to the standard library: a type variable and
  two parameters.
\<close>

record 't NullTime =
  NT_Time :: 't
  NT_Valid :: bool

record 't Time =
  t_val :: "'t NullTime"
  t_unmarshaled :: bool

definition NewTime :: "'t \<Rightarrow> 't Time" where
  "NewTime v = \<lparr>t_val = \<lparr>NT_Time = v, NT_Valid = True\<rparr>, t_unmarshaled = False\<rparr>"

definition NewNullTime :: "'t \<Rightarrow> 't Time" where
  "NewNullTime zero = \<lparr>t_val = \<lparr>NT_Time = zero, NT_Valid = False\<rparr>, t_unmarshaled = False\<rparr>"

definition Time_SetNull :: "'t \<Rightarrow> 't Time \<Rightarrow> 't Time" where
  "Time_SetNull zero t = t\<lparr>t_val := (t_val t)\<lparr>NT_Time := zero, NT_Valid := False\<rparr>\<rparr>"

definition Time_EqualRaw :: "('t \<Rightarrow> 't \<Rightarrow> bool) \<Rightarrow> 't Time \<Rightarrow> 't \<Rightarrow> bool" where
  "Time_EqualRaw Equal t other = (NT_Valid (t_val t) \<and> Equal (NT_Time (t_val t)) other)"

section \<open>Properties of the arithmetic\<close>

lemma bits_pos: "0 < bits k"
  by (cases k) (simp_all add: intSize_def)



lemma convT_id: "inRange k x \<Longrightarrow> convT k x = x"
proof (cases "is_unsigned k")
  case True
  assume "inRange k x"
  with True show ?thesis
    by (simp add: inRange_def convT_def minOf_def maxOf_def)
next
  case False
  assume r: "inRange k x"
  have p: "(2::int) ^ bits k = 2 * 2 ^ (bits k - 1)"
    using bits_pos [of k] by (cases "bits k") simp_all
  from r False have "0 \<le> x + 2 ^ (bits k - 1)" and "x + 2 ^ (bits k - 1) < 2 ^ bits k"
    by (simp_all add: inRange_def minOf_def maxOf_def p)
  then have "(x + 2 ^ (bits k - 1)) mod 2 ^ bits k = x + 2 ^ (bits k - 1)"
    by simp
  then show ?thesis using False by (simp add: convT_def)
qed








text \<open>
  Rounding and printing at known values: the \<^verbatim>\<open>float32\<close> and the \<^verbatim>\<open>float64\<close> nearest to one
  tenth; a tie, which goes to the even neighbour; the largest \<^verbatim>\<open>float32\<close> plus half a unit
  in its last place, which overflows; and \<^verbatim>\<open>%f\<close> on the number of the documentation of
  \<^verbatim>\<open>String\<close>, on a negative number and on a negligible one.
\<close>

lemma roundTo_examples:
  "roundTo KFloat32 (1 / 10) = Finite (13421773 / 2 ^ 27)
   \<and> roundTo KFloat64 (1 / 10) = Finite (3602879701896397 / 2 ^ 55)
   \<and> ieee_add KFloat32 (Finite 1) (Finite (1 / 2 ^ 24)) = Finite 1
   \<and> ieee_add KFloat32 (Finite 1) (Finite (3 / 2 ^ 24)) = Finite (1 + 1 / 2 ^ 22)
   \<and> roundTo KFloat32 ((2 ^ 25 - 1) * 2 ^ 103) = PosInf"
  by code_simp

lemma FormatF_examples:
  "FormatF (Finite (123456 / 1000)) = ''123.456000''
   \<and> FormatF (Finite (- 1 / 3)) = ''-0.333333''
   \<and> FormatF (Finite (1 / 2 ^ 30)) = ''0.000000''
   \<and> FormatF PosInf = ''+Inf''"
  by code_simp

section \<open>Comparison under null operands\<close>

text \<open>
  C5. For every pair of operands of which at least one is null, \<^verbatim>\<open>Compare\<close> returns the
  null-comparison error (with the placeholder result 0), while \<^verbatim>\<open>Greater\<close>, \<^verbatim>\<open>Less\<close>,
  \<^verbatim>\<open>GreaterOrEqual\<close> and \<^verbatim>\<open>LessOrEqual\<close> return false and have no error to return; both
  hold on the same operands.
\<close>

theorem Compare_fails_order_tests_false_on_null:
  assumes "\<not> Valid (val n) \<or> \<not> Valid (val other)"
  shows "Numeric_Compare n other = (0, Some CannotCompareNull)
    \<and> Numeric_Greater n other = False
    \<and> Numeric_Less n other = False
    \<and> Numeric_GreaterOrEqual n other = False
    \<and> Numeric_LessOrEqual n other = False"
  using assms
  by (simp add: Numeric_Compare_def Numeric_Greater_def Numeric_Less_def
      Numeric_GreaterOrEqual_def Numeric_LessOrEqual_def)

theorem Compare_fails_order_tests_false_witness:
  "Numeric_Compare (NewNullNumber KInt8) (NewNumber (IntV 5)) = (0, Some CannotCompareNull)
    \<and> Numeric_Greater (NewNullNumber KInt8) (NewNumber (IntV 5)) = False
    \<and> Numeric_Less (NewNullNumber KInt8) (NewNumber (IntV 5)) = False
    \<and> Numeric_GreaterOrEqual (NewNullNumber KInt8) (NewNumber (IntV 5)) = False
    \<and> Numeric_LessOrEqual (NewNullNumber KInt8) (NewNumber (IntV 5)) = False
    \<and> Numeric_Compare (NewNumber (FloatV (Finite 1))) (NewNullNumber KFloat64)
        = (0, Some CannotCompareNull)
    \<and> Numeric_LessOrEqual (NewNumber (FloatV (Finite 1))) (NewNullNumber KFloat64) = False"
  using Compare_fails_order_tests_false_on_null [of "NewNullNumber KInt8" "NewNumber (IntV 5)"]
    Compare_fails_order_tests_false_on_null
      [of "NewNumber (FloatV (Finite 1))" "NewNullNumber KFloat64"]
  by (simp add: NewNullNumber_def)

section \<open>Division\<close>



section \<open>Addition, subtraction and multiplication\<close>




section \<open>Decimal conversions: formatting, then parsing\<close>

lemma of_char_digitChar: "0 \<le> d \<Longrightarrow> d < 10 \<Longrightarrow> (of_char (digitChar d) :: int) = 48 + d"
  by (simp add: digitChar_def of_char_of)

lemma isDigit_digitChar: "0 \<le> d \<Longrightarrow> d < 10 \<Longrightarrow> isDigit (digitChar d)"
  by (simp add: isDigit_def of_char_digitChar)

lemma digitVal_digitChar: "0 \<le> d \<Longrightarrow> d < 10 \<Longrightarrow> digitVal (digitChar d) = d"
  by (simp add: digitVal_def of_char_digitChar)

lemma isDigit_not_sign: "isDigit c \<Longrightarrow> c \<noteq> CHR ''-'' \<and> c \<noteq> CHR ''+''"
  by (auto simp: isDigit_def)

lemma isDigit_not_space: "isDigit c \<Longrightarrow> \<not> isSpace c"
  by (auto simp: isDigit_def isSpace_def)

lemma ParseUint_loop_append:
  "ParseUint_loop a (xs @ [c]) =
     (case ParseUint_loop a xs of Inl e \<Rightarrow> Inl e | Inr m \<Rightarrow> ParseUint_loop m [c])"
  by (induction xs arbitrary: a) (simp_all add: Let_def)

lemma ParseUint_loop_digit:
  assumes "0 \<le> m" "m * 10 + d < 2 ^ 64" "0 \<le> d" "d < 10"
  shows "ParseUint_loop m [digitChar d] = Inr (m * 10 + d)"
proof -
  have "m < maxUint64 div 10 + 1"
    using assms by (simp add: maxUint64_def)
  moreover have "(m * 10 + d) mod 2 ^ 64 = m * 10 + d"
    using assms by simp
  ultimately show ?thesis
    using assms by (simp add: isDigit_digitChar digitVal_digitChar Let_def maxUint64_def)
qed

lemma ParseUint_loop_FormatUint:
  "0 \<le> n \<Longrightarrow> n < 2 ^ 64 \<Longrightarrow> ParseUint_loop 0 (FormatUint n) = Inr n"
proof (induction n rule: FormatUint.induct)
  case (1 n)
  show ?case
  proof (cases "n < 10")
    case True
    with "1.prems" ParseUint_loop_digit [of 0 n] show ?thesis
      by (subst FormatUint.simps) simp
  next
    case False
    with "1.prems" have ih: "ParseUint_loop 0 (FormatUint (n div 10)) = Inr (n div 10)"
      using "1.IH" by simp
    have "ParseUint_loop (n div 10) [digitChar (n mod 10)] = Inr (n div 10 * 10 + n mod 10)"
      using "1.prems" by (intro ParseUint_loop_digit) simp_all
    with ih False show ?thesis
      by (subst FormatUint.simps) (simp add: ParseUint_loop_append)
  qed
qed

lemma FormatUint_not_Nil: "FormatUint n \<noteq> []"
  by (subst FormatUint.simps) simp

lemma ParseUint_FormatUint: "0 \<le> n \<Longrightarrow> n < 2 ^ 64 \<Longrightarrow> ParseUint (FormatUint n) = Inr n"
  by (simp add: ParseUint_def FormatUint_not_Nil ParseUint_loop_FormatUint)

lemma digitChar_not_zero: "0 < d \<Longrightarrow> d < 10 \<Longrightarrow> digitChar d \<noteq> CHR ''0''"
proof
  assume d: "0 < d" "d < 10" and e: "digitChar d = CHR ''0''"
  from d have "(of_char (digitChar d) :: int) = 48 + d"
    by (simp add: of_char_digitChar)
  with e d show False by simp
qed

lemma digitChar_zero: "digitChar 0 = CHR ''0''"
proof -
  have "(of_char (digitChar 0) :: int) = of_char (CHR ''0'')"
    by (simp add: of_char_digitChar)
  then show ?thesis by (simp only: of_char_eq_iff)
qed

lemma FormatUint_zero: "FormatUint 0 = ''0''"
  by (subst FormatUint.simps) (simp add: digitChar_zero)

lemma FormatUint_shape:
  "0 < n \<Longrightarrow>
   \<exists>c cs. FormatUint n = c # cs \<and> isDigit c \<and> c \<noteq> CHR ''0'' \<and> (\<forall>x\<in>set cs. isDigit x)"
proof (induction n rule: FormatUint.induct)
  case (1 n)
  show ?case
  proof (cases "n < 10")
    case True
    with "1.prems" show ?thesis
      by (subst FormatUint.simps) (simp add: isDigit_digitChar digitChar_not_zero)
  next
    case False
    with "1.prems" obtain c cs where
      f: "FormatUint (n div 10) = c # cs" and d: "isDigit c" "c \<noteq> CHR ''0''"
        "\<forall>x\<in>set cs. isDigit x"
      using "1.IH" by fastforce
    have "isDigit (digitChar (n mod 10))"
      by (rule isDigit_digitChar) simp_all
    with f d False show ?thesis
      by (subst FormatUint.simps) simp
  qed
qed

lemma FormatUint_digits: "0 \<le> n \<Longrightarrow> \<forall>x\<in>set (FormatUint n). isDigit x"
proof (cases "n = 0")
  case True
  then show ?thesis by (simp add: FormatUint_zero isDigit_def)
next
  case False
  assume "0 \<le> n"
  with False have "0 < n" by simp
  from FormatUint_shape [OF this] show ?thesis by auto
qed

lemma ParseInt_FormatInt:
  assumes "- (2 ^ 63) \<le> i" "i < 2 ^ 63"
  shows "ParseInt (FormatInt i) = Inr i"
proof (cases "i < 0")
  case True
  with assms have "ParseUint (FormatUint (- i)) = Inr (- i)"
    by (intro ParseUint_FormatUint) simp_all
  with True assms show ?thesis
    by (simp add: ParseInt_def FormatInt_def ParseInt_finish_def)
next
  case False
  then have n: "0 \<le> i" by simp
  with assms have p: "ParseUint (FormatUint i) = Inr i"
    by (intro ParseUint_FormatUint) simp_all
  obtain c cs where f: "FormatUint i = c # cs"
    using FormatUint_not_Nil [of i] by (cases "FormatUint i") auto
  with FormatUint_digits [OF n] have "isDigit c" by simp
  then have "c \<noteq> CHR ''-''" "c \<noteq> CHR ''+''"
    using isDigit_not_sign by blast+
  with f p False assms show ?thesis
    by (simp add: ParseInt_def FormatInt_def ParseInt_finish_def)
qed

lemma uintOverflow_inRange: "inRange k v \<Longrightarrow> uintCase k \<Longrightarrow> uintOverflow k v = None"
  by (cases k)
    (simp_all add: inRange_def maxOf_def MaxUint_def MaxUint8_def MaxUint16_def MaxUint32_def)

lemma intOverflow_inRange: "inRange k v \<Longrightarrow> \<not> is_unsigned k \<Longrightarrow> intOverflow k v = None"
  by (cases k)
    (simp_all add: inRange_def maxOf_def minOf_def MaxInt_def MinInt_def MaxInt8_def MinInt8_def
      MaxInt16_def MinInt16_def MaxInt32_def MinInt32_def)

lemma inRange_unsigned: "is_unsigned k \<Longrightarrow> inRange k v \<Longrightarrow> 0 \<le> v \<and> v < 2 ^ 64"
  by (cases k) (simp_all add: inRange_def minOf_def maxOf_def intSize_def)

lemma inRange_signed: "\<not> is_unsigned k \<Longrightarrow> inRange k v \<Longrightarrow> - (2 ^ 63) \<le> v \<and> v < 2 ^ 63"
  by (cases k) (simp_all add: inRange_def minOf_def maxOf_def intSize_def)

lemma parseUint_fmtInteger:
  assumes "uintCase k" "inRange k v"
  shows "parseUint k (fmtInteger k v) = Inr (IntV v)"
proof -
  from assms have u: "is_unsigned k" by (cases k) simp_all
  with assms inRange_unsigned have "ParseUint (FormatUint v) = Inr v"
    by (intro ParseUint_FormatUint) blast+
  with u assms show ?thesis
    by (simp add: parseUint_def fmtInteger_def uintOverflow_inRange convT_id)
qed

lemma parseInt_fmtInteger:
  assumes "\<not> is_unsigned k" "inRange k v"
  shows "parseInt k (fmtInteger k v) = Inr (IntV v)"
proof -
  from assms inRange_signed have "ParseInt (FormatInt v) = Inr v"
    by (intro ParseInt_FormatInt) blast+
  with assms show ?thesis
    by (simp add: parseInt_def fmtInteger_def intOverflow_inRange convT_id)
qed

lemma fmtInteger_not_Nil: "fmtInteger k v \<noteq> []"
  by (simp add: fmtInteger_def FormatInt_def FormatUint_not_Nil)

text \<open>A type with no method to print through has its integers printed in decimal.\<close>

lemma Numeric_String_integer:
  assumes "\<not> printsThrough t"
  shows "Numeric_String fmtG t k (NewNumber (IntV v)) = fmtInteger k v"
proof (cases t)
  case Predeclared
  then show ?thesis
    by (simp add: Numeric_String_def NewNumber_def percentV_def)
next
  case (Defined m)
  with assms have "m = None" by (cases m) simp_all
  with Defined show ?thesis
    by (simp add: Numeric_String_def NewNumber_def percentV_def)
qed

lemma text_round_trip:
  assumes "\<not> is_float k" "k \<noteq> KUintptr" "inRange k v" "\<not> printsThrough t"
  shows "Numeric_UnmarshalText ParseFloat k m
           (fst (Numeric_MarshalText fmtG t k (NewNumber (IntV v))))
         = (\<lparr>val = \<lparr>V = IntV v, Valid = True\<rparr>, unmarshaled = True\<rparr>, None)"
proof -
  have enc: "fst (Numeric_MarshalText fmtG t k (NewNumber (IntV v))) = fmtInteger k v"
    using Numeric_String_integer [OF assms(4)]
    by (simp add: Numeric_MarshalText_def) (simp add: NewNumber_def)
  show ?thesis
  proof (cases "uintCase k")
    case True
    with assms show ?thesis
      unfolding enc
      by (simp add: Numeric_UnmarshalText_def fmtInteger_not_Nil parseUint_fmtInteger)
  next
    case False
    with assms have "\<not> is_unsigned k" by (cases k) simp_all
    with False assms show ?thesis
      unfolding enc
      by (simp add: Numeric_UnmarshalText_def fmtInteger_not_Nil parseInt_fmtInteger)
  qed
qed

text \<open>
  A float round-trips through the text codec when \<^verbatim>\<open>strconv.ParseFloat\<close> reads the printed
  text as a \<^verbatim>\<open>float64\<close> that lies in the range of the kind and converts to the number.
\<close>

lemma text_round_trip_float:
  assumes "is_float k"
    and "fst (Numeric_MarshalText fmtG t k (NewNumber (FloatV x))) \<noteq> []"
    and "ParseFloat 64 (fst (Numeric_MarshalText fmtG t k (NewNumber (FloatV x)))) = Inr y"
    and "\<not> (k = KFloat32 \<and> (flt MaxFloat32 y \<or> flt y MinusMaxFloat32))"
    and "convF k y = x"
  shows "Numeric_UnmarshalText ParseFloat k m
           (fst (Numeric_MarshalText fmtG t k (NewNumber (FloatV x))))
         = (\<lparr>val = \<lparr>V = FloatV x, Valid = True\<rparr>, unmarshaled = True\<rparr>, None)"
proof -
  from assms(1) have "\<not> uintCase k" by (cases k) simp_all
  with assms show ?thesis
    by (simp add: Numeric_UnmarshalText_def parseFloat_def)
qed

subsection \<open>The tagged-literal codec on decimal forms\<close>

lemma dropWhile_all: "\<forall>x\<in>set xs. P x \<Longrightarrow> dropWhile P xs = []"
  by (induction xs) simp_all

lemma validNumber_FormatUint: "0 \<le> n \<Longrightarrow> validNumber (FormatUint n)"
proof (cases "n = 0")
  case True
  then show ?thesis
    by (simp add: FormatUint_zero validNumber_def scanSign_def scanInt_def scanFrac_def
        scanExp_def)
next
  case False
  assume "0 \<le> n"
  with False have "0 < n" by simp
  from FormatUint_shape [OF this] obtain c cs where
    f: "FormatUint n = c # cs" and d: "isDigit c" "c \<noteq> CHR ''0''" "\<forall>x\<in>set cs. isDigit x"
    by blast
  from d have "c \<noteq> CHR ''-''" using isDigit_not_sign by blast
  with f d show ?thesis
    by (simp add: validNumber_def scanSign_def scanInt_def scanFrac_def scanExp_def
        dropWhile_all)
qed

lemma validNumber_FormatInt: "validNumber (FormatInt i)"
proof (cases "i < 0")
  case True
  then have "0 \<le> - i" by simp
  from validNumber_FormatUint [OF this] obtain c cs where f: "FormatUint (- i) = c # cs"
    using FormatUint_not_Nil [of "- i"] by (cases "FormatUint (- i)") auto
  with FormatUint_digits [OF \<open>0 \<le> - i\<close>] have "isDigit c" by simp
  then have "c \<noteq> CHR ''-''" using isDigit_not_sign by blast
  with validNumber_FormatUint [OF \<open>0 \<le> - i\<close>] f True show ?thesis
    by (simp add: FormatInt_def validNumber_def scanSign_def)
next
  case False
  then show ?thesis by (simp add: FormatInt_def validNumber_FormatUint)
qed

lemma validNumber_fmtInteger: "inRange k v \<Longrightarrow> validNumber (fmtInteger k v)"
  using inRange_unsigned [of k v]
  by (simp add: fmtInteger_def validNumber_FormatInt validNumber_FormatUint)

text \<open>A number literal has no white space in it, and is not the literal \<^verbatim>\<open>null\<close>.\<close>

lemma dropWhile_isDigit_split:
  "\<exists>p. r = p @ dropWhile isDigit r \<and> (\<forall>c\<in>set p. \<not> isSpace c)"
proof (intro exI [of _ "takeWhile isDigit r"] conjI ballI)
  show "r = takeWhile isDigit r @ dropWhile isDigit r" by simp
next
  fix c
  assume "c \<in> set (takeWhile isDigit r)"
  then have "isDigit c" by (rule set_takeWhileD [THEN conjunct2])
  then show "\<not> isSpace c" by (rule isDigit_not_space)
qed

lemma scanSign_split: "\<exists>p. s = p @ scanSign s \<and> (\<forall>c\<in>set p. \<not> isSpace c)"
proof (cases s)
  case Nil
  then show ?thesis by (simp add: scanSign_def)
next
  case (Cons c r)
  show ?thesis
  proof (cases "c = CHR ''-''")
    case True
    with Cons show ?thesis
      by (intro exI [of _ "[c]"]) (simp add: scanSign_def isSpace_def)
  next
    case False
    with Cons show ?thesis
      by (intro exI [of _ "[]"]) (simp add: scanSign_def)
  qed
qed

lemma scanDigits1_split:
  assumes "scanDigits1 s = Some r"
  shows "\<exists>p. s = p @ r \<and> (\<forall>c\<in>set p. \<not> isSpace c)"
proof (cases s)
  case Nil
  with assms show ?thesis by (simp add: scanDigits1_def)
next
  case (Cons d t)
  with assms have d: "isDigit d" and r: "r = dropWhile isDigit t"
    by (simp_all add: scanDigits1_def split: if_splits)
  from dropWhile_isDigit_split [of t] obtain p where
    p: "t = p @ dropWhile isDigit t" "\<forall>c\<in>set p. \<not> isSpace c"
    by blast
  from p(1) have "d # t = (d # p) @ dropWhile isDigit t" by simp
  with Cons r p(2) d isDigit_not_space show ?thesis
    by (intro exI [of _ "d # p"]) simp
qed

lemma scanInt_split:
  assumes "scanInt s = Some r"
  shows "\<exists>p. s = p @ r \<and> (\<forall>c\<in>set p. \<not> isSpace c)"
proof (cases s)
  case Nil
  with assms show ?thesis by (simp add: scanInt_def)
next
  case (Cons c t)
  show ?thesis
  proof (cases "c = CHR ''0''")
    case True
    with assms Cons have "r = t" by (simp add: scanInt_def)
    with Cons True show ?thesis
      by (intro exI [of _ "[c]"]) (simp add: isSpace_def)
  next
    case False
    with assms Cons have d: "isDigit c" and r: "r = dropWhile isDigit t"
      by (simp_all add: scanInt_def split: if_splits)
    from dropWhile_isDigit_split [of t] obtain p where
      p: "t = p @ dropWhile isDigit t" "\<forall>c\<in>set p. \<not> isSpace c"
      by blast
    from p(1) have "c # t = (c # p) @ dropWhile isDigit t" by simp
    with Cons r p(2) d isDigit_not_space show ?thesis
      by (intro exI [of _ "c # p"]) simp
  qed
qed

lemma scanFrac_split:
  assumes "scanFrac s = Some r"
  shows "\<exists>p. s = p @ r \<and> (\<forall>c\<in>set p. \<not> isSpace c)"
proof (cases s)
  case Nil
  with assms show ?thesis by (simp add: scanFrac_def)
next
  case (Cons c t)
  show ?thesis
  proof (cases "c = CHR ''.''")
    case True
    with assms Cons have "scanDigits1 t = Some r" by (simp add: scanFrac_def)
    from scanDigits1_split [OF this] obtain p where
      p: "t = p @ r" "\<forall>c\<in>set p. \<not> isSpace c"
      by blast
    with Cons True show ?thesis
      by (intro exI [of _ "c # p"]) (simp add: isSpace_def)
  next
    case False
    with assms Cons have "r = s" by (simp add: scanFrac_def)
    then show ?thesis by (intro exI [of _ "[]"]) simp
  qed
qed

lemma scanExp_split:
  assumes "scanExp s = Some r"
  shows "\<exists>p. s = p @ r \<and> (\<forall>c\<in>set p. \<not> isSpace c)"
proof (cases s)
  case Nil
  with assms show ?thesis by (simp add: scanExp_def)
next
  case (Cons c t)
  show ?thesis
  proof (cases "c = CHR ''e'' \<or> c = CHR ''E''")
    case e: True
    then have c: "\<not> isSpace c" by (auto simp: isSpace_def)
    show ?thesis
    proof (cases t)
      case Nil
      with assms Cons e show ?thesis by (auto simp: scanExp_def)
    next
      case t: (Cons x t')
      show ?thesis
      proof (cases "x = CHR ''+'' \<or> x = CHR ''-''")
        case True
        then have x: "\<not> isSpace x" by (auto simp: isSpace_def)
        from True assms Cons t e have "scanDigits1 t' = Some r"
          by (auto simp: scanExp_def)
        from scanDigits1_split [OF this] obtain p where
          p: "t' = p @ r" "\<forall>c\<in>set p. \<not> isSpace c"
          by blast
        with Cons t c x show ?thesis
          by (intro exI [of _ "c # x # p"]) simp
      next
        case False
        with assms Cons t e have "scanDigits1 t = Some r"
          by (auto simp: scanExp_def)
        from scanDigits1_split [OF this] obtain p where
          p: "t = p @ r" "\<forall>c\<in>set p. \<not> isSpace c"
          by blast
        with Cons c show ?thesis
          by (intro exI [of _ "c # p"]) simp
      qed
    qed
  next
    case False
    with assms Cons have "r = s" by (simp add: scanExp_def)
    then show ?thesis by (intro exI [of _ "[]"]) simp
  qed
qed

lemma validNumber_no_space:
  assumes "validNumber s"
  shows "\<forall>c\<in>set s. \<not> isSpace c"
proof -
  from assms obtain r1 where r1: "scanInt (scanSign s) = Some r1"
    by (auto simp: validNumber_def split: option.splits)
  with assms obtain r2 where r2: "scanFrac r1 = Some r2"
    by (auto simp: validNumber_def split: option.splits)
  with assms r1 have r3: "scanExp r2 = Some []"
    by (auto simp: validNumber_def split: option.splits)
  from scanSign_split [of s] obtain p0 where
    p0: "s = p0 @ scanSign s" "\<forall>c\<in>set p0. \<not> isSpace c" by blast
  from scanInt_split [OF r1] obtain p1 where
    p1: "scanSign s = p1 @ r1" "\<forall>c\<in>set p1. \<not> isSpace c" by blast
  from scanFrac_split [OF r2] obtain p2 where
    p2: "r1 = p2 @ r2" "\<forall>c\<in>set p2. \<not> isSpace c" by blast
  from scanExp_split [OF r3] obtain p3 where
    p3: "r2 = p3 @ []" "\<forall>c\<in>set p3. \<not> isSpace c" by blast
  have "s = p0 @ p1 @ p2 @ p3"
    using p0(1) p1(1) p2(1) p3(1) by simp
  then have "set s = set p0 \<union> set p1 \<union> set p2 \<union> set p3"
    by (metis set_append sup_assoc)
  with p0(2) p1(2) p2(2) p3(2) show ?thesis by blast
qed

lemma dropWhile_none: "\<forall>x\<in>set xs. \<not> P x \<Longrightarrow> dropWhile P xs = xs"
  by (cases xs) simp_all

lemma trimSpace_no_space:
  assumes "\<forall>x\<in>set s. \<not> isSpace x"
  shows "trimSpace s = s"
proof -
  from assms have "dropWhile isSpace s = s"
    by (rule dropWhile_none)
  moreover from assms have "dropWhile isSpace (rev s) = rev s"
    by (intro dropWhile_none) simp
  ultimately show ?thesis by (simp add: trimSpace_def)
qed

lemma validNumber_trim: "validNumber s \<Longrightarrow> trimSpace s = s"
  by (intro trimSpace_no_space validNumber_no_space)

lemma validNumber_not_null: "validNumber s \<Longrightarrow> s \<noteq> ''null''"
proof
  assume "validNumber s" and "s = ''null''"
  then have "validNumber ''null''" by simp
  then show False
    by (simp add: validNumber_def scanSign_def scanInt_def isDigit_def)
qed

lemma jsonUnmarshal_fmtInteger:
  assumes "\<not> is_float k" "inRange k v"
  shows "jsonUnmarshal ParseFloat k (fmtInteger k v) = Inr (Some (IntV v))"
proof -
  have vn: "validNumber (fmtInteger k v)"
    using assms(2) by (rule validNumber_fmtInteger)
  note t = validNumber_trim [OF vn] validNumber_not_null [OF vn]
  show ?thesis
  proof (cases "is_unsigned k")
    case True
    with assms inRange_unsigned have b: "0 \<le> v" "v < 2 ^ 64" by blast+
    then have "ParseUint (FormatUint v) = Inr v" by (rule ParseUint_FormatUint)
    moreover have "fmtInteger k v = FormatUint v" using True by (simp add: fmtInteger_def)
    ultimately show ?thesis
      using assms True t vn by (simp add: jsonUnmarshal_def inRange_def)
  next
    case False
    with assms inRange_signed have "- (2 ^ 63) \<le> v" "v < 2 ^ 63" by blast+
    then have "ParseInt (FormatInt v) = Inr v" by (rule ParseInt_FormatInt)
    moreover have "fmtInteger k v = FormatInt v" using False by (simp add: fmtInteger_def)
    ultimately show ?thesis
      using assms False t vn by (simp add: jsonUnmarshal_def inRange_def)
  qed
qed

lemma json_round_trip:
  assumes "\<not> is_float k" "inRange k v"
  shows "Numeric_UnmarshalJSON ParseFloat k m
           (fst (Numeric_MarshalJSON jsonFloat k (NewNumber (IntV v))))
         = (\<lparr>val = \<lparr>V = IntV v, Valid = True\<rparr>, unmarshaled = True\<rparr>, None)"
  using validNumber_not_null [OF validNumber_fmtInteger [OF assms(2)]]
    jsonUnmarshal_fmtInteger [OF assms]
  by (simp add: Numeric_UnmarshalJSON_def Numeric_MarshalJSON_def NewNumber_def jsonMarshal_def)

text \<open>A value of a float kind is left as it is by the conversion to the kind.\<close>

lemma isFloatOf_convF: "isFloatOf k x \<Longrightarrow> convF k x = x"
  by (cases x) (auto simp: isFloatOf_def convF_def)

lemma isFloatOf_no_overflow:
  assumes "isFloatOf k x" "x \<noteq> PosInf" "x \<noteq> NegInf"
  shows "\<not> overflowFloat k x"
  using assms
  by (cases x)
    (auto simp: isFloatOf_def overflowFloat_def maxFinite_def MaxFloat32_def flt_def)

lemma json_round_trip_float:
  assumes "is_float k" "isFloatOf k x" "x \<noteq> PosInf" "x \<noteq> NegInf" "x \<noteq> NaN"
    and "validNumber (jsonFloat (bits k) x)"
    and "ParseFloat (bits k) (jsonFloat (bits k) x) = Inr x"
  shows "Numeric_UnmarshalJSON ParseFloat k m
           (fst (Numeric_MarshalJSON jsonFloat k (NewNumber (FloatV x))))
         = (\<lparr>val = \<lparr>V = FloatV x, Valid = True\<rparr>, unmarshaled = True\<rparr>, None)"
proof -
  have enc: "fst (Numeric_MarshalJSON jsonFloat k (NewNumber (FloatV x))) = jsonFloat (bits k) x"
    using assms(3-5)
    by (cases x) (simp_all add: Numeric_MarshalJSON_def NewNumber_def jsonMarshal_def)
  have "jsonUnmarshal ParseFloat k (jsonFloat (bits k) x) = Inr (Some (FloatV x))"
    using assms(1,7) validNumber_trim [OF assms(6)] validNumber_not_null [OF assms(6)] assms(6)
      isFloatOf_convF [OF assms(2)] isFloatOf_no_overflow [OF assms(2-4)]
    by (simp add: jsonUnmarshal_def)
  with validNumber_not_null [OF assms(6)] show ?thesis
    unfolding enc
    by (simp add: Numeric_UnmarshalJSON_def)
qed

section \<open>Round trips through the codecs\<close>

text \<open>
  C4 as stated fails, in three ways. The text encoding of a \<^verbatim>\<open>float64\<close> is printed with
  \<^verbatim>\<open>%f\<close>, six decimals: the numbers \<open>1 / 2 ^ 30\<close> and \<open>0\<close> are both encoded as
  \<^verbatim>\<open>0.000000\<close>, so that, whatever \<^verbatim>\<open>strconv.ParseFloat\<close> reads from that text, decoding
  cannot give back both. The text encoding of a type with a \<^verbatim>\<open>String\<close> method is what that
  method returns, which the decoder does not parse: here a type over \<^verbatim>\<open>int8\<close> whose method
  returns \<^verbatim>\<open>hot\<close>. And the tagged-literal encoder refuses a NaN.
\<close>

theorem round_trip_counterexample:
  "(\<forall>ParseFloat fmtG m.
      isFloatOf KFloat64 (Finite (1 / 2 ^ 30))
      \<and> fst (Numeric_MarshalText fmtG Predeclared KFloat64
               (NewNumber (FloatV (Finite (1 / 2 ^ 30))))) = ''0.000000''
      \<and> fst (Numeric_MarshalText fmtG Predeclared KFloat64
               (NewNumber (FloatV (Finite 0)))) = ''0.000000''
      \<and> \<not> (V (val (fst (Numeric_UnmarshalText ParseFloat KFloat64 m ''0.000000'')))
              = FloatV (Finite (1 / 2 ^ 30))
           \<and> V (val (fst (Numeric_UnmarshalText ParseFloat KFloat64 m ''0.000000'')))
              = FloatV (Finite 0)))
   \<and> (\<forall>ParseFloat fmtG m.
        Numeric_UnmarshalText ParseFloat KInt8 m
          (fst (Numeric_MarshalText fmtG (Defined (Some (\<lambda>v. ''hot''))) KInt8
                  (NewNumber (IntV 5))))
        = (m\<lparr>unmarshaled := True\<rparr>, Some ErrSyntax))
   \<and> (\<forall>jsonFloat.
        Numeric_MarshalJSON jsonFloat KFloat64 (NewNumber (FloatV NaN))
        = ([], Some JSONUnsupportedValue))"
proof (intro conjI allI)
  have "roundTo KFloat64 (1 / 2 ^ 30) = Finite (1 / 2 ^ 30)"
    by code_simp
  then show "isFloatOf KFloat64 (Finite (1 / 2 ^ 30))"
    by (simp add: isFloatOf_def maxFinite_def MaxFloat64_def)
next
  fix fmtG :: "nat \<Rightarrow> float \<Rightarrow> string"
  have "FormatF (Finite (1 / 2 ^ 30)) = ''0.000000''"
    by code_simp
  then show "fst (Numeric_MarshalText fmtG Predeclared KFloat64
               (NewNumber (FloatV (Finite (1 / 2 ^ 30))))) = ''0.000000''"
    by (simp add: Numeric_MarshalText_def Numeric_String_def NewNumber_def)
next
  fix fmtG :: "nat \<Rightarrow> float \<Rightarrow> string"
  have "FormatF (Finite 0) = ''0.000000''"
    by code_simp
  then show "fst (Numeric_MarshalText fmtG Predeclared KFloat64
               (NewNumber (FloatV (Finite 0)))) = ''0.000000''"
    by (simp add: Numeric_MarshalText_def Numeric_String_def NewNumber_def)
next
  fix ParseFloat :: "nat \<Rightarrow> string \<Rightarrow> error + float" and m
  show "\<not> (V (val (fst (Numeric_UnmarshalText ParseFloat KFloat64 m ''0.000000'')))
              = FloatV (Finite (1 / 2 ^ 30))
           \<and> V (val (fst (Numeric_UnmarshalText ParseFloat KFloat64 m ''0.000000'')))
              = FloatV (Finite 0))"
    by auto
next
  fix ParseFloat :: "nat \<Rightarrow> string \<Rightarrow> error + float" and fmtG :: "nat \<Rightarrow> float \<Rightarrow> string" and m
  have "parseInt KInt8 ''hot'' = Inl ErrSyntax"
    by code_simp
  then show "Numeric_UnmarshalText ParseFloat KInt8 m
          (fst (Numeric_MarshalText fmtG (Defined (Some (\<lambda>v. ''hot''))) KInt8
                  (NewNumber (IntV 5))))
        = (m\<lparr>unmarshaled := True\<rparr>, Some ErrSyntax)"
    by (simp add: Numeric_UnmarshalText_def Numeric_MarshalText_def Numeric_String_def
        NewNumber_def percentV_def)
next
  fix jsonFloat :: "nat \<Rightarrow> float \<Rightarrow> string"
  show "Numeric_MarshalJSON jsonFloat KFloat64 (NewNumber (FloatV NaN))
        = ([], Some JSONUnsupportedValue)"
    by (simp add: Numeric_MarshalJSON_def NewNumber_def jsonMarshal_def)
qed

text \<open>
  C4, as the code has it. Decoding the encoding of a value into any wrapper yields exactly
  that value, with valid and unmarshaled set and no error,
  \<^item> through the text codec, for every integer kind other than \<^verbatim>\<open>uintptr\<close>, every value of
    the kind and every type that has no method for \<^verbatim>\<open>%v\<close> to print through;
  \<^item> through the tagged-literal codec, for every integer kind and every value of the kind;
  \<^item> through the tagged-literal codec, for every float kind and every finite value of the
    kind, if the library encodes it as a number literal that \<^verbatim>\<open>strconv.ParseFloat\<close> reads
    back as that value at the bit size of the kind;
  \<^item> through the text codec, for a float kind, if \<^verbatim>\<open>strconv.ParseFloat\<close> reads the printed
    text, at 64 bits, as a number within the range of the kind that converts to the value.
\<close>

theorem codec_round_trip:
  "(\<not> is_float k \<and> k \<noteq> KUintptr \<and> inRange k v \<and> \<not> printsThrough t \<longrightarrow>
      Numeric_UnmarshalText ParseFloat k m
          (fst (Numeric_MarshalText fmtG t k (NewNumber (IntV v))))
        = (\<lparr>val = \<lparr>V = IntV v, Valid = True\<rparr>, unmarshaled = True\<rparr>, None))
   \<and> (\<not> is_float k \<and> inRange k v \<longrightarrow>
      Numeric_UnmarshalJSON ParseFloat k m
          (fst (Numeric_MarshalJSON jsonFloat k (NewNumber (IntV v))))
        = (\<lparr>val = \<lparr>V = IntV v, Valid = True\<rparr>, unmarshaled = True\<rparr>, None))
   \<and> (is_float k \<and> isFloatOf k x \<and> x \<noteq> PosInf \<and> x \<noteq> NegInf \<and> x \<noteq> NaN
        \<and> validNumber (jsonFloat (bits k) x)
        \<and> ParseFloat (bits k) (jsonFloat (bits k) x) = Inr x \<longrightarrow>
      Numeric_UnmarshalJSON ParseFloat k m
          (fst (Numeric_MarshalJSON jsonFloat k (NewNumber (FloatV x))))
        = (\<lparr>val = \<lparr>V = FloatV x, Valid = True\<rparr>, unmarshaled = True\<rparr>, None))
   \<and> (is_float k
        \<and> fst (Numeric_MarshalText fmtG t k (NewNumber (FloatV x))) \<noteq> []
        \<and> ParseFloat 64 (fst (Numeric_MarshalText fmtG t k (NewNumber (FloatV x)))) = Inr y
        \<and> \<not> (k = KFloat32 \<and> (flt MaxFloat32 y \<or> flt y MinusMaxFloat32))
        \<and> convF k y = x \<longrightarrow>
      Numeric_UnmarshalText ParseFloat k m
          (fst (Numeric_MarshalText fmtG t k (NewNumber (FloatV x))))
        = (\<lparr>val = \<lparr>V = FloatV x, Valid = True\<rparr>, unmarshaled = True\<rparr>, None))"
  using text_round_trip [of k v t ParseFloat m fmtG] json_round_trip [of k v ParseFloat m jsonFloat]
    json_round_trip_float [of k x jsonFloat ParseFloat m]
    text_round_trip_float [of k fmtG t x ParseFloat y m]
  by blast

text \<open>
  Instances, with a parser and an encoder that agree with the library on the texts used:
  \<^verbatim>\<open>1.500000\<close> and \<^verbatim>\<open>1.5\<close> are read as \<open>3 / 2\<close>, which is encoded as \<^verbatim>\<open>1.5\<close>.
\<close>

theorem codec_round_trip_witness:
  "Numeric_UnmarshalText
       (\<lambda>b s. if s = ''1.500000'' \<or> s = ''1.5'' then Inr (Finite (3 / 2)) else Inl ErrSyntax)
       KInt8 (NewNullNumber KInt8)
       (fst (Numeric_MarshalText (\<lambda>b x. ''1.5'') (Defined None) KInt8 (NewNumber (IntV (- 128)))))
     = (\<lparr>val = \<lparr>V = IntV (- 128), Valid = True\<rparr>, unmarshaled = True\<rparr>, None)
   \<and> Numeric_UnmarshalJSON
       (\<lambda>b s. if s = ''1.500000'' \<or> s = ''1.5'' then Inr (Finite (3 / 2)) else Inl ErrSyntax)
       KUintptr (NewNullNumber KUintptr)
       (fst (Numeric_MarshalJSON (\<lambda>b x. ''1.5'') KUintptr (NewNumber (IntV 18446744073709551615))))
     = (\<lparr>val = \<lparr>V = IntV 18446744073709551615, Valid = True\<rparr>, unmarshaled = True\<rparr>, None)
   \<and> Numeric_UnmarshalJSON
       (\<lambda>b s. if s = ''1.500000'' \<or> s = ''1.5'' then Inr (Finite (3 / 2)) else Inl ErrSyntax)
       KFloat32 (NewNullNumber KFloat32)
       (fst (Numeric_MarshalJSON (\<lambda>b x. ''1.5'') KFloat32 (NewNumber (FloatV (Finite (3 / 2))))))
     = (\<lparr>val = \<lparr>V = FloatV (Finite (3 / 2)), Valid = True\<rparr>, unmarshaled = True\<rparr>, None)
   \<and> Numeric_UnmarshalText
       (\<lambda>b s. if s = ''1.500000'' \<or> s = ''1.5'' then Inr (Finite (3 / 2)) else Inl ErrSyntax)
       KFloat32 (NewNullNumber KFloat32)
       (fst (Numeric_MarshalText (\<lambda>b x. ''1.5'') Predeclared KFloat32
               (NewNumber (FloatV (Finite (3 / 2))))))
     = (\<lparr>val = \<lparr>V = FloatV (Finite (3 / 2)), Valid = True\<rparr>, unmarshaled = True\<rparr>, None)"
proof -
  let ?PF = "\<lambda>(b::nat) s. if s = ''1.500000'' \<or> s = ''1.5''
                         then Inr (Finite (3 / 2)) else (Inl ErrSyntax :: error + float)"
  let ?F = "\<lambda>(b::nat) (x::float). ''1.5''"
  have h1: "\<not> is_float KInt8 \<and> KInt8 \<noteq> KUintptr \<and> inRange KInt8 (- 128)
      \<and> \<not> printsThrough (Defined None)"
    by (simp add: inRange_def minOf_def maxOf_def)
  have h2: "\<not> is_float KUintptr \<and> inRange KUintptr 18446744073709551615"
    by (simp add: inRange_def minOf_def maxOf_def intSize_def)
  have f: "isFloatOf KFloat32 (Finite (3 / 2))"
    by code_simp
  have vn: "validNumber ''1.5''"
    by code_simp
  have h3: "is_float KFloat32 \<and> isFloatOf KFloat32 (Finite (3 / 2))
      \<and> Finite (3 / 2) \<noteq> PosInf \<and> Finite (3 / 2) \<noteq> NegInf \<and> Finite (3 / 2) \<noteq> NaN
      \<and> validNumber (?F (bits KFloat32) (Finite (3 / 2)))
      \<and> ?PF (bits KFloat32) (?F (bits KFloat32) (Finite (3 / 2))) = Inr (Finite (3 / 2))"
    using f vn by simp
  have e: "FormatF (Finite (3 / 2)) = ''1.500000''"
    by code_simp
  have enc: "fst (Numeric_MarshalText ?F Predeclared KFloat32 (NewNumber (FloatV (Finite (3 / 2)))))
      = ''1.500000''"
    using e by (simp add: Numeric_MarshalText_def Numeric_String_def NewNumber_def)
  have r: "\<not> (flt MaxFloat32 (Finite (3 / 2)) \<or> flt (Finite (3 / 2)) MinusMaxFloat32)"
    by (simp add: flt_def MaxFloat32_def MinusMaxFloat32_def)
  have h4: "is_float KFloat32
      \<and> fst (Numeric_MarshalText ?F Predeclared KFloat32 (NewNumber (FloatV (Finite (3 / 2)))))
          \<noteq> []
      \<and> ?PF 64 (fst (Numeric_MarshalText ?F Predeclared KFloat32
                       (NewNumber (FloatV (Finite (3 / 2)))))) = Inr (Finite (3 / 2))
      \<and> \<not> (KFloat32 = KFloat32
            \<and> (flt MaxFloat32 (Finite (3 / 2)) \<or> flt (Finite (3 / 2)) MinusMaxFloat32))
      \<and> convF KFloat32 (Finite (3 / 2)) = Finite (3 / 2)"
    using r isFloatOf_convF [OF f] unfolding enc by simp
  from codec_round_trip [where k = KInt8 and v = "- 128" and t = "Defined None"
      and ParseFloat = ?PF and fmtG = ?F and m = "NewNullNumber KInt8"] h1
  have c1: "Numeric_UnmarshalText ?PF KInt8 (NewNullNumber KInt8)
       (fst (Numeric_MarshalText ?F (Defined None) KInt8 (NewNumber (IntV (- 128)))))
     = (\<lparr>val = \<lparr>V = IntV (- 128), Valid = True\<rparr>, unmarshaled = True\<rparr>, None)"
    by blast
  from codec_round_trip [where k = KUintptr and v = 18446744073709551615
      and ParseFloat = ?PF and jsonFloat = ?F and m = "NewNullNumber KUintptr"] h2
  have c2: "Numeric_UnmarshalJSON ?PF KUintptr (NewNullNumber KUintptr)
       (fst (Numeric_MarshalJSON ?F KUintptr (NewNumber (IntV 18446744073709551615))))
     = (\<lparr>val = \<lparr>V = IntV 18446744073709551615, Valid = True\<rparr>, unmarshaled = True\<rparr>, None)"
    by blast
  from codec_round_trip [where k = KFloat32 and x = "Finite (3 / 2)"
      and ParseFloat = ?PF and jsonFloat = ?F and m = "NewNullNumber KFloat32"] h3
  have c3: "Numeric_UnmarshalJSON ?PF KFloat32 (NewNullNumber KFloat32)
       (fst (Numeric_MarshalJSON ?F KFloat32 (NewNumber (FloatV (Finite (3 / 2))))))
     = (\<lparr>val = \<lparr>V = FloatV (Finite (3 / 2)), Valid = True\<rparr>, unmarshaled = True\<rparr>, None)"
    by blast
  from codec_round_trip [where k = KFloat32 and x = "Finite (3 / 2)" and y = "Finite (3 / 2)"
      and t = Predeclared and ParseFloat = ?PF and fmtG = ?F and m = "NewNullNumber KFloat32"] h4
  have c4: "Numeric_UnmarshalText ?PF KFloat32 (NewNullNumber KFloat32)
       (fst (Numeric_MarshalText ?F Predeclared KFloat32 (NewNumber (FloatV (Finite (3 / 2))))))
     = (\<lparr>val = \<lparr>V = FloatV (Finite (3 / 2)), Valid = True\<rparr>, unmarshaled = True\<rparr>, None)"
    by blast
  from c1 c2 c3 c4 show ?thesis
    by (intro conjI)
qed

section \<open>Parsing by category\<close>

lemma ParseUint_loop_range:
  "0 \<le> n \<Longrightarrow> n \<le> maxUint64 \<Longrightarrow> ParseUint_loop n s = Inr u \<Longrightarrow> 0 \<le> u \<and> u \<le> maxUint64"
proof (induction s arbitrary: n)
  case Nil
  then show ?case by simp
next
  case (Cons c cs)
  let ?n1 = "(n * 10 + digitVal c) mod 2 ^ 64"
  from Cons.prems(3) have ok: "\<not> (?n1 < n * 10 \<or> ?n1 > maxUint64)"
    and rec: "ParseUint_loop ?n1 cs = Inr u"
    by (auto simp: Let_def split: if_splits)
  have "0 \<le> ?n1" by simp
  moreover from ok have "?n1 \<le> maxUint64" by simp
  ultimately show ?case using rec Cons.IH by blast
qed

lemma ParseUint_range: "ParseUint s = Inr u \<Longrightarrow> 0 \<le> u \<and> u \<le> maxUint64"
  using ParseUint_loop_range [of 0 s u]
  by (simp add: ParseUint_def maxUint64_def split: if_splits)

lemma ParseInt_finish_range:
  "0 \<le> un \<Longrightarrow> ParseInt_finish neg un = Inr i \<Longrightarrow> - (2 ^ 63) \<le> i \<and> i < 2 ^ 63"
  by (auto simp: ParseInt_finish_def split: if_splits)

lemma ParseInt_range: "ParseInt s = Inr i \<Longrightarrow> - (2 ^ 63) \<le> i \<and> i < 2 ^ 63"
proof (cases s)
  case Nil
  assume "ParseInt s = Inr i"
  with Nil show ?thesis by (simp add: ParseInt_def)
next
  case (Cons c cs)
  assume p: "ParseInt s = Inr i"
  let ?s1 = "if c = CHR ''+'' \<or> c = CHR ''-'' then cs else c # cs"
  show ?thesis
  proof (cases "ParseUint ?s1")
    case (Inl err)
    with p Cons have "ParseInt_finish (c = CHR ''-'') maxUint64 = Inr i"
      by (simp add: ParseInt_def Let_def split: if_splits)
    then show ?thesis
      by (intro ParseInt_finish_range [of maxUint64]) (simp_all add: maxUint64_def)
  next
    case (Inr un)
    with p Cons have "ParseInt_finish (c = CHR ''-'') un = Inr i"
      by (simp add: ParseInt_def Let_def)
    moreover from Inr have "0 \<le> un" using ParseUint_range by blast
    ultimately show ?thesis by (intro ParseInt_finish_range [of un])
  qed
qed

lemma uintOverflow_iff:
  assumes "uintCase k" "0 \<le> p" "p \<le> maxUint64"
  shows "uintOverflow k p = (if inRange k p then None else Some (Overflows k))"
  using assms
  by (cases k)
    (simp_all add: inRange_def minOf_def maxOf_def intSize_def maxUint64_def
      MaxUint_def MaxUint8_def MaxUint16_def MaxUint32_def)

lemma intOverflow_iff:
  assumes "\<not> is_unsigned k" "\<not> is_float k" "- (2 ^ 63) \<le> p" "p < 2 ^ 63"
  shows "intOverflow k p = (if inRange k p then None else Some (Overflows k))"
  using assms
  by (cases k)
    (auto simp: inRange_def minOf_def maxOf_def intSize_def
      MaxInt_def MinInt_def MaxInt8_def MinInt8_def MaxInt16_def MinInt16_def
      MaxInt32_def MinInt32_def)

text \<open>
  For every integer kind other than \<^verbatim>\<open>uintptr\<close>, decoding a non-empty text parses it as
  an unsigned 64-bit number when the kind is unsigned and as a signed 64-bit number when
  it is signed, returns the parse error if there is one, and otherwise stores the parsed
  number exactly when it lies in the range of the kind; out of range, it returns the
  overflow error of the kind and leaves value and valid flag as they were.
\<close>

lemma text_parse_by_category:
  assumes "\<not> is_float k" "k \<noteq> KUintptr" "data \<noteq> []"
  shows "Numeric_UnmarshalText ParseFloat k n data =
     (case (if is_unsigned k then ParseUint data else ParseInt data) of
        Inl err \<Rightarrow> (n\<lparr>unmarshaled := True\<rparr>, Some err)
      | Inr parsed \<Rightarrow>
          if inRange k parsed
          then (\<lparr>val = \<lparr>V = IntV parsed, Valid = True\<rparr>, unmarshaled = True\<rparr>, None)
          else (n\<lparr>unmarshaled := True\<rparr>, Some (Overflows k)))"
proof (cases "is_unsigned k")
  case True
  with assms have u: "uintCase k" by (cases k) simp_all
  show ?thesis
  proof (cases "ParseUint data")
    case (Inl err)
    with True u assms show ?thesis
      by (simp add: Numeric_UnmarshalText_def parseUint_def)
  next
    case (Inr parsed)
    with ParseUint_range have "0 \<le> parsed" "parsed \<le> maxUint64" by blast+
    with u have "uintOverflow k parsed = (if inRange k parsed then None else Some (Overflows k))"
      by (rule uintOverflow_iff)
    with True u assms Inr show ?thesis
      by (simp add: Numeric_UnmarshalText_def parseUint_def convT_id)
  qed
next
  case False
  then have u: "\<not> uintCase k" by (cases k) simp_all
  show ?thesis
  proof (cases "ParseInt data")
    case (Inl err)
    with False u assms show ?thesis
      by (simp add: Numeric_UnmarshalText_def parseInt_def)
  next
    case (Inr parsed)
    with ParseInt_range have "- (2 ^ 63) \<le> parsed" "parsed < 2 ^ 63" by blast+
    with False assms(1)
    have "intOverflow k parsed = (if inRange k parsed then None else Some (Overflows k))"
      by (rule intOverflow_iff)
    with False u assms Inr show ?thesis
      by (simp add: Numeric_UnmarshalText_def parseInt_def convT_id)
  qed
qed

text \<open>
  For a float kind, decoding a non-empty text parses it as a 64-bit float, returns the
  parse error if there is one, refuses a number beyond the largest \<^verbatim>\<open>float32\<close> when the
  kind is \<^verbatim>\<open>float32\<close>, and otherwise stores the number converted to the kind.
\<close>

lemma text_parse_float:
  assumes "is_float k" "data \<noteq> []"
  shows "Numeric_UnmarshalText ParseFloat k n data =
     (case ParseFloat 64 data of
        Inl err \<Rightarrow> (n\<lparr>unmarshaled := True\<rparr>, Some err)
      | Inr parsed \<Rightarrow>
          if k = KFloat32 \<and> (flt MaxFloat32 parsed \<or> flt parsed MinusMaxFloat32)
          then (n\<lparr>unmarshaled := True\<rparr>, Some (Overflows KFloat32))
          else (\<lparr>val = \<lparr>V = FloatV (convF k parsed), Valid = True\<rparr>, unmarshaled = True\<rparr>,
                None))"
proof -
  from assms(1) have "\<not> uintCase k" by (cases k) simp_all
  with assms show ?thesis
    by (cases "ParseFloat 64 data") (simp_all add: Numeric_UnmarshalText_def parseFloat_def)
qed

text \<open>The boundary of the 8-bit signed kind: 127 is accepted, 128 overflows.\<close>

lemma int8_text_boundary:
  "Numeric_UnmarshalText ParseFloat KInt8 (NewNullNumber KInt8) ''127''
     = (\<lparr>val = \<lparr>V = IntV 127, Valid = True\<rparr>, unmarshaled = True\<rparr>, None)
   \<and> Numeric_UnmarshalText ParseFloat KInt8 (NewNullNumber KInt8) ''128''
     = (\<lparr>val = \<lparr>V = IntV 0, Valid = False\<rparr>, unmarshaled = True\<rparr>, Some (Overflows KInt8))"
  by code_simp

text \<open>
  C3 says that an unsigned kind is parsed as an unsigned 64-bit number and then checked
  against the range of the kind. \<^verbatim>\<open>UnmarshalText\<close> sends \<^verbatim>\<open>uintptr\<close> through \<^verbatim>\<open>parseInt\<close>
  instead: \<^verbatim>\<open>-1\<close> is accepted and stored as \<open>2 ^ 64 - 1\<close>, and the largest value of the
  kind is refused, where \<^verbatim>\<open>uint64\<close> refuses the first and accepts the second.
\<close>

theorem uintptr_text_takes_signed_path:
  "Numeric_UnmarshalText ParseFloat KUintptr (NewNullNumber KUintptr) ''-1''
     = (\<lparr>val = \<lparr>V = IntV 18446744073709551615, Valid = True\<rparr>, unmarshaled = True\<rparr>, None)
   \<and> Numeric_UnmarshalText ParseFloat KUintptr (NewNullNumber KUintptr) ''18446744073709551615''
     = (\<lparr>val = \<lparr>V = IntV 0, Valid = False\<rparr>, unmarshaled = True\<rparr>, Some ErrRange)
   \<and> Numeric_UnmarshalText ParseFloat KUint64 (NewNullNumber KUint64) ''-1''
     = (\<lparr>val = \<lparr>V = IntV 0, Valid = False\<rparr>, unmarshaled = True\<rparr>, Some ErrSyntax)
   \<and> Numeric_UnmarshalText ParseFloat KUint64 (NewNullNumber KUint64) ''18446744073709551615''
     = (\<lparr>val = \<lparr>V = IntV 18446744073709551615, Valid = True\<rparr>, unmarshaled = True\<rparr>, None)"
  by code_simp

section \<open>The stored value of a null wrapper\<close>

text \<open>
  The constructors, \<^verbatim>\<open>Set\<close>, \<^verbatim>\<open>SetNull\<close>, the decoded literal \<^verbatim>\<open>null\<close>, \<^verbatim>\<open>Scan\<close>, every
  decode of a non-empty text and every decode of a tagged literal that succeeds leave a
  wrapper that is valid or stores zero (for the text decoder, if it was so before).
\<close>

lemma null_stores_zero_elsewhere:
  "V (val (NewNullNumber k)) = zeroT k
   \<and> V (val (Numeric_SetNull k n)) = zeroT k
   \<and> Valid (val (NewNumber v)) \<and> Valid (val (Numeric_Set n v))
   \<and> V (val (fst (Numeric_UnmarshalJSON ParseFloat k n ''null''))) = zeroT k
   \<and> V (val (fst (Numeric_Scan convertAssign k n AnyNil))) = zeroT k
   \<and> (x \<noteq> AnyNil \<longrightarrow> Valid (val (fst (Numeric_Scan convertAssign k n x))))
   \<and> (data \<noteq> [] \<and> (Valid (val n) \<or> V (val n) = zeroT k) \<longrightarrow>
        Valid (val (fst (Numeric_UnmarshalText ParseFloat k n data)))
        \<or> V (val (fst (Numeric_UnmarshalText ParseFloat k n data))) = zeroT k)
   \<and> (snd (Numeric_UnmarshalJSON ParseFloat k n data) = None \<longrightarrow>
        Valid (val (fst (Numeric_UnmarshalJSON ParseFloat k n data)))
        \<or> V (val (fst (Numeric_UnmarshalJSON ParseFloat k n data))) = zeroT k)"
  by (auto simp: NewNullNumber_def Numeric_SetNull_def NewNumber_def Numeric_Set_def
      Numeric_UnmarshalJSON_def Numeric_Scan_def Null_Scan_def Numeric_UnmarshalText_def
      Let_def split: sum.splits prod.splits)

text \<open>
  C1 says that a wrapper whose valid flag is false stores the zero value. Decoding the
  empty text into a wrapper that holds 42 clears the valid flag and keeps the 42, which
  \<^verbatim>\<open>Get\<close> then returns; so does a tagged literal that fails to decode.
\<close>

theorem UnmarshalText_empty_keeps_stale_value:
  "Numeric_UnmarshalText ParseFloat KInt8 (NewNumber (IntV 42)) []
     = (\<lparr>val = \<lparr>V = IntV 42, Valid = False\<rparr>, unmarshaled = True\<rparr>, None)
   \<and> Numeric_Get (fst (Numeric_UnmarshalText ParseFloat KInt8 (NewNumber (IntV 42)) []))
     = IntV 42
   \<and> Numeric_IsNull (fst (Numeric_UnmarshalText ParseFloat KInt8 (NewNumber (IntV 42)) []))
   \<and> zeroT KInt8 = IntV 0
   \<and> Numeric_UnmarshalJSON ParseFloat KInt8 (NewNumber (IntV 42)) ''x''
     = (\<lparr>val = \<lparr>V = IntV 42, Valid = False\<rparr>, unmarshaled = True\<rparr>, Some JSONUnmarshalError)"
  by code_simp

section \<open>Failed decodes\<close>

text \<open>
  C2 as stated fails: a decode that fails on a wrapper holding a valid value returns the
  error and leaves the wrapper valid.
\<close>

theorem decode_failure_counterexample:
  "\<forall>ParseFloat.
     snd (Numeric_UnmarshalText ParseFloat KInt8 (NewNumber (IntV 42)) ''abc'') = Some ErrSyntax
     \<and> Valid (val (fst (Numeric_UnmarshalText ParseFloat KInt8 (NewNumber (IntV 42)) ''abc'')))
         = True
     \<and> snd (Duration_Scan (\<lambda>s. Inl ParseDurationError) (NewDuration 5) AnyOther)
         = Some UnsupportedType
     \<and> d_valid (fst (Duration_Scan (\<lambda>s. Inl ParseDurationError) (NewDuration 5) AnyOther))
         = True"
proof
  fix ParseFloat :: "nat \<Rightarrow> string \<Rightarrow> error + float"
  show "snd (Numeric_UnmarshalText ParseFloat KInt8 (NewNumber (IntV 42)) ''abc'') = Some ErrSyntax
     \<and> Valid (val (fst (Numeric_UnmarshalText ParseFloat KInt8 (NewNumber (IntV 42)) ''abc'')))
         = True
     \<and> snd (Duration_Scan (\<lambda>s. Inl ParseDurationError) (NewDuration 5) AnyOther)
         = Some UnsupportedType
     \<and> d_valid (fst (Duration_Scan (\<lambda>s. Inl ParseDurationError) (NewDuration 5) AnyOther))
         = True"
    by code_simp
qed

text \<open>
  C2, as the code has it. A parse or scan failure is returned to the caller and never
  changes the stored value.
  \<^item> \<^verbatim>\<open>Numeric.UnmarshalText\<close> on a non-empty text returns the error of the parser of the
    kind (\<^verbatim>\<open>parseUint\<close>, \<^verbatim>\<open>parseFloat\<close> or \<^verbatim>\<open>parseInt\<close>), sets the unmarshaled flag and
    leaves value and valid flag as they were.
  \<^item> \<^verbatim>\<open>Numeric.UnmarshalJSON\<close> on an input other than \<^verbatim>\<open>null\<close> returns the error of
    \<^verbatim>\<open>json.Unmarshal\<close>, sets the unmarshaled flag, clears the valid flag and leaves the
    value as it was.
  \<^item> \<^verbatim>\<open>Duration.UnmarshalText\<close> on a non-empty text returns the error of
    \<^verbatim>\<open>time.ParseDuration\<close>, sets the unmarshaled flag and leaves value and valid flag as
    they were.
  \<^item> \<^verbatim>\<open>Duration.Scan\<close> returns the error of \<^verbatim>\<open>time.ParseDuration\<close> for a string, and an
    unsupported-type error for a value of another type, and changes nothing.
  \<^item> \<^verbatim>\<open>Numeric.Scan\<close> of a value other than \<^verbatim>\<open>nil\<close> returns the error of the library's
    conversion, leaves the value as it was and sets the valid flag.
  So the valid flag is false after a failure when it was false before, or when the decoder
  is \<^verbatim>\<open>Numeric.UnmarshalJSON\<close>.
\<close>

theorem decode_failure_keeps_value:
  "(Numeric_UnmarshalText ParseFloat k n data = (n', Some err) \<longrightarrow>
      val n' = val n \<and> unmarshaled n' = True)
   \<and> (data \<noteq> []
        \<and> (if uintCase k then parseUint k data
            else if is_float k then parseFloat ParseFloat k data
            else parseInt k data) = Inl err \<longrightarrow>
      Numeric_UnmarshalText ParseFloat k n data = (n\<lparr>unmarshaled := True\<rparr>, Some err))
   \<and> (Numeric_UnmarshalJSON ParseFloat k n data = (n', Some err) \<longrightarrow>
      V (val n') = V (val n) \<and> Valid (val n') = False \<and> unmarshaled n' = True)
   \<and> (data \<noteq> ''null'' \<and> jsonUnmarshal ParseFloat k data = Inl err \<longrightarrow>
      Numeric_UnmarshalJSON ParseFloat k n data
        = (n\<lparr>val := (val n)\<lparr>Valid := False\<rparr>, unmarshaled := True\<rparr>, Some err))
   \<and> (Duration_UnmarshalText ParseDuration d data = (d', Some err) \<longrightarrow>
      d_value d' = d_value d \<and> d_valid d' = d_valid d \<and> d_unmarshaled d' = True)
   \<and> (data \<noteq> [] \<and> ParseDuration data = Inl err \<longrightarrow>
      Duration_UnmarshalText ParseDuration d data = (d\<lparr>d_unmarshaled := True\<rparr>, Some err))
   \<and> (Duration_Scan ParseDuration d x = (d', Some err) \<longrightarrow> d' = d)
   \<and> (ParseDuration s = Inl err \<longrightarrow>
      Duration_Scan ParseDuration d (AnyString s) = (d, Some err))
   \<and> Duration_Scan ParseDuration d AnyOther = (d, Some UnsupportedType)
   \<and> (x \<noteq> AnyNil \<and> convertAssign x = Inl err \<longrightarrow>
      Numeric_Scan convertAssign k n x = (n\<lparr>val := (val n)\<lparr>Valid := True\<rparr>\<rparr>, Some err))"
proof -
  have a: "Numeric_UnmarshalText ParseFloat k n data = (n', Some err) \<longrightarrow>
      val n' = val n \<and> unmarshaled n' = True"
    by (auto simp: Numeric_UnmarshalText_def Let_def split: if_splits sum.splits)
  have b: "data \<noteq> []
        \<and> (if uintCase k then parseUint k data
            else if is_float k then parseFloat ParseFloat k data
            else parseInt k data) = Inl err \<longrightarrow>
      Numeric_UnmarshalText ParseFloat k n data = (n\<lparr>unmarshaled := True\<rparr>, Some err)"
    by (simp add: Numeric_UnmarshalText_def Let_def)
  have c: "Numeric_UnmarshalJSON ParseFloat k n data = (n', Some err) \<longrightarrow>
      V (val n') = V (val n) \<and> Valid (val n') = False \<and> unmarshaled n' = True"
    by (auto simp: Numeric_UnmarshalJSON_def Let_def split: if_splits sum.splits)
  have c': "data \<noteq> ''null'' \<and> jsonUnmarshal ParseFloat k data = Inl err \<longrightarrow>
      Numeric_UnmarshalJSON ParseFloat k n data
        = (n\<lparr>val := (val n)\<lparr>Valid := False\<rparr>, unmarshaled := True\<rparr>, Some err)"
    by (simp add: Numeric_UnmarshalJSON_def Let_def)
  have d: "Duration_UnmarshalText ParseDuration d data = (d', Some err) \<longrightarrow>
      d_value d' = d_value d \<and> d_valid d' = d_valid d \<and> d_unmarshaled d' = True"
    by (auto simp: Duration_UnmarshalText_def Duration_SetNull_def Let_def
        split: if_splits sum.splits)
  have d': "data \<noteq> [] \<and> ParseDuration data = Inl err \<longrightarrow>
      Duration_UnmarshalText ParseDuration d data = (d\<lparr>d_unmarshaled := True\<rparr>, Some err)"
    by (simp add: Duration_UnmarshalText_def Let_def)
  have e: "Duration_Scan ParseDuration d x = (d', Some err) \<longrightarrow> d' = d"
    by (auto simp: Duration_Scan_def split: any.splits sum.splits)
  have e1: "ParseDuration s = Inl err \<longrightarrow>
      Duration_Scan ParseDuration d (AnyString s) = (d, Some err)"
    by (simp add: Duration_Scan_def)
  have e2: "Duration_Scan ParseDuration d AnyOther = (d, Some UnsupportedType)"
    by (simp add: Duration_Scan_def)
  have f: "x \<noteq> AnyNil \<and> convertAssign x = Inl err \<longrightarrow>
      Numeric_Scan convertAssign k n x = (n\<lparr>val := (val n)\<lparr>Valid := True\<rparr>\<rparr>, Some err)"
    by (simp add: Numeric_Scan_def Null_Scan_def)
  from a b c c' d d' e e1 e2 f show ?thesis by (intro conjI)
qed

text \<open>
  Instances: a malformed literal, a number beyond the range of \<^verbatim>\<open>float32\<close> (with a parser
  that reads \<^verbatim>\<open>1e39\<close> as \<open>10 ^ 39\<close>), a tagged literal that is no integer, a malformed
  duration, and scans of an unsupported type.
\<close>

theorem decode_failure_keeps_value_witness:
  "Numeric_UnmarshalText (\<lambda>b s. Inl ErrSyntax) KInt8 (NewNullNumber KInt8) ''64.5''
     = (NewNullNumber KInt8\<lparr>unmarshaled := True\<rparr>, Some ErrSyntax)
   \<and> Valid (val (fst (Numeric_UnmarshalText (\<lambda>b s. Inl ErrSyntax) KInt8 (NewNullNumber KInt8)
                       ''64.5''))) = False
   \<and> Numeric_UnmarshalText (\<lambda>b s. Inr (Finite (10 ^ 39))) KFloat32
         (NewNumber (FloatV (Finite 1))) ''1e39''
     = (NewNumber (FloatV (Finite 1))\<lparr>unmarshaled := True\<rparr>, Some (Overflows KFloat32))
   \<and> Numeric_UnmarshalJSON (\<lambda>b s. Inl ErrSyntax) KInt8 (NewNumber (IntV 42)) ''64.5''
     = (\<lparr>val = \<lparr>V = IntV 42, Valid = False\<rparr>, unmarshaled = True\<rparr>, Some JSONUnmarshalError)
   \<and> Duration_UnmarshalText (\<lambda>s. Inl ParseDurationError) NewNullDuration ''1x''
     = (NewNullDuration\<lparr>d_unmarshaled := True\<rparr>, Some ParseDurationError)
   \<and> Duration_Scan (\<lambda>s. Inl ParseDurationError) (NewDuration 5) (AnyString ''1x'')
     = (NewDuration 5, Some ParseDurationError)
   \<and> Duration_Scan (\<lambda>s. Inl ParseDurationError) (NewDuration 5) AnyOther
     = (NewDuration 5, Some UnsupportedType)
   \<and> Numeric_Scan (\<lambda>x. Inl UnsupportedType) KInt8 (NewNullNumber KInt8) AnyOther
     = (\<lparr>val = \<lparr>V = IntV 0, Valid = True\<rparr>, unmarshaled = False\<rparr>, Some UnsupportedType)"
proof -
  let ?PF = "\<lambda>(b::nat) (s::string). (Inl ErrSyntax :: error + float)"
  let ?PB = "\<lambda>(b::nat) (s::string). (Inr (Finite (10 ^ 39)) :: error + float)"
  let ?PD = "\<lambda>s::string. (Inl ParseDurationError :: error + int)"
  let ?CA = "\<lambda>x::any. (Inl UnsupportedType :: error + tval)"
  have p: "''64.5'' \<noteq> []
      \<and> (if uintCase KInt8 then parseUint KInt8 ''64.5''
          else if is_float KInt8 then parseFloat ?PF KInt8 ''64.5''
          else parseInt KInt8 ''64.5'') = Inl ErrSyntax"
    by code_simp
  have q: "''1e39'' \<noteq> []
      \<and> (if uintCase KFloat32 then parseUint KFloat32 ''1e39''
          else if is_float KFloat32 then parseFloat ?PB KFloat32 ''1e39''
          else parseInt KFloat32 ''1e39'') = Inl (Overflows KFloat32)"
    by (simp add: parseFloat_def flt_def MaxFloat32_def)
  have j: "''64.5'' \<noteq> ''null'' \<and> jsonUnmarshal ?PF KInt8 ''64.5'' = Inl JSONUnmarshalError"
    by code_simp
  have t: "''1x'' \<noteq> [] \<and> ?PD ''1x'' = Inl ParseDurationError"
    by simp
  have s: "AnyOther \<noteq> AnyNil \<and> ?CA AnyOther = Inl UnsupportedType"
    by simp
  note w1 = decode_failure_keeps_value [where ParseFloat = ?PF and k = KInt8
      and n = "NewNullNumber KInt8" and data = "''64.5''" and err = ErrSyntax
      and n' = "NewNullNumber KInt8\<lparr>unmarshaled := True\<rparr>"]
  note w2 = decode_failure_keeps_value [where ParseFloat = ?PB and k = KFloat32
      and n = "NewNumber (FloatV (Finite 1))" and data = "''1e39''"
      and err = "Overflows KFloat32"
      and n' = "NewNumber (FloatV (Finite 1))\<lparr>unmarshaled := True\<rparr>"]
  note w3 = decode_failure_keeps_value [where ParseFloat = ?PF and k = KInt8
      and n = "NewNumber (IntV 42)" and data = "''64.5''" and err = JSONUnmarshalError
      and n' = "\<lparr>val = \<lparr>V = IntV 42, Valid = False\<rparr>, unmarshaled = True\<rparr>"]
  note w4 = decode_failure_keeps_value [where ParseDuration = ?PD and d = NewNullDuration
      and data = "''1x''" and err = ParseDurationError
      and d' = "NewNullDuration\<lparr>d_unmarshaled := True\<rparr>"]
  note w5 = decode_failure_keeps_value [where ParseDuration = ?PD and d = "NewDuration 5"
      and s = "''1x''" and err = ParseDurationError and x = "AnyString ''1x''"
      and d' = "NewDuration 5"]
  note w6 = decode_failure_keeps_value [where convertAssign = ?CA and k = KInt8
      and n = "NewNullNumber KInt8" and x = AnyOther and err = UnsupportedType]
  from w1 p have c1: "Numeric_UnmarshalText ?PF KInt8 (NewNullNumber KInt8) ''64.5''
     = (NewNullNumber KInt8\<lparr>unmarshaled := True\<rparr>, Some ErrSyntax)"
    by blast
  from w1 c1 have c1': "val (NewNullNumber KInt8\<lparr>unmarshaled := True\<rparr>) = val (NewNullNumber KInt8)"
    by blast
  from w2 q have c2: "Numeric_UnmarshalText ?PB KFloat32 (NewNumber (FloatV (Finite 1))) ''1e39''
     = (NewNumber (FloatV (Finite 1))\<lparr>unmarshaled := True\<rparr>, Some (Overflows KFloat32))"
    by blast
  from w3 j have c3: "Numeric_UnmarshalJSON ?PF KInt8 (NewNumber (IntV 42)) ''64.5''
     = ((NewNumber (IntV 42))\<lparr>val := (val (NewNumber (IntV 42)))\<lparr>Valid := False\<rparr>,
          unmarshaled := True\<rparr>, Some JSONUnmarshalError)"
    by blast
  from w4 t have c4: "Duration_UnmarshalText ?PD NewNullDuration ''1x''
     = (NewNullDuration\<lparr>d_unmarshaled := True\<rparr>, Some ParseDurationError)"
    by blast
  from w5 have c5: "Duration_Scan ?PD (NewDuration 5) (AnyString ''1x'')
     = (NewDuration 5, Some ParseDurationError)"
    by simp
  from w5 have c6: "Duration_Scan ?PD (NewDuration 5) AnyOther
     = (NewDuration 5, Some UnsupportedType)"
    by blast
  from w6 s have c7: "Numeric_Scan ?CA KInt8 (NewNullNumber KInt8) AnyOther
     = ((NewNullNumber KInt8)\<lparr>val := (val (NewNullNumber KInt8))\<lparr>Valid := True\<rparr>\<rparr>,
        Some UnsupportedType)"
    by blast
  from c1 c1' have c1v: "Valid (val (fst (Numeric_UnmarshalText ?PF KInt8 (NewNullNumber KInt8)
                       ''64.5''))) = False"
    by (simp add: NewNullNumber_def)
  from c3 have c3': "Numeric_UnmarshalJSON ?PF KInt8 (NewNumber (IntV 42)) ''64.5''
     = (\<lparr>val = \<lparr>V = IntV 42, Valid = False\<rparr>, unmarshaled = True\<rparr>, Some JSONUnmarshalError)"
    by (simp add: NewNumber_def)
  from c7 have c7': "Numeric_Scan ?CA KInt8 (NewNullNumber KInt8) AnyOther
     = (\<lparr>val = \<lparr>V = IntV 0, Valid = True\<rparr>, unmarshaled = False\<rparr>, Some UnsupportedType)"
    by (simp add: NewNullNumber_def zeroT_def)
  from c1 c1v c2 c3' c4 c5 c6 c7' show ?thesis
    by (intro conjI)
qed

section \<open>Comparison with a raw value\<close>

text \<open>
  C8 says that \<^verbatim>\<open>EqualRaw\<close> ignores the valid flag in every wrapper, so that a null
  instance equals the zero raw value. \<^verbatim>\<open>Numeric.EqualRaw\<close> does, for every kind;
  \<^verbatim>\<open>Duration.EqualRaw\<close> and \<^verbatim>\<open>Time.EqualRaw\<close> test the valid flag first, and a null
  duration or instant is not equal to the zero duration or the zero instant, whatever
  \<^verbatim>\<open>time.Time.Equal\<close> answers.
\<close>

theorem Duration_Time_EqualRaw_test_valid:
  "Duration_EqualRaw NewNullDuration 0 = False
   \<and> Time_EqualRaw Equal (NewNullTime zero) zero = False
   \<and> Numeric_EqualRaw (NewNullNumber k) (zeroT k) = True"
  by (simp add: Duration_EqualRaw_def NewNullDuration_def Time_EqualRaw_def NewNullTime_def
      Numeric_EqualRaw_def NewNullNumber_def zeroT_def feq_def)

section \<open>The storage bridge: scanning nil, and the driver value\<close>

text \<open>
  C9 as stated fails: the driver value of a valid \<^verbatim>\<open>uintptr\<close> is an error, as is that of
  a \<^verbatim>\<open>uint64\<close> with the high bit set.
\<close>

theorem Value_counterexample:
  "Numeric_Value KUintptr (NewNumber (IntV 1)) = Inl UnsupportedType
   \<and> Numeric_Value KUint64 (NewNumber (IntV 9223372036854775808)) = Inl HighBitSet"
  by code_simp

lemma convT_KInt64_id: "- (2 ^ 63) \<le> v \<Longrightarrow> v < 2 ^ 63 \<Longrightarrow> convT KInt64 v = v"
  by (rule convT_id) (simp add: inRange_def minOf_def maxOf_def)

lemma convT_KInt64_high:
  assumes "2 ^ 63 \<le> v" "v < 2 ^ 64"
  shows "convT KInt64 v = v - 2 ^ 64"
proof -
  have "(v + 2 ^ 63) mod 2 ^ 64 = (v + 2 ^ 63 - 2 ^ 64) mod 2 ^ 64"
    by (metis minus_mod_self2)
  also have "\<dots> = v + 2 ^ 63 - 2 ^ 64"
    using assms by (intro mod_pos_pos_trivial) simp_all
  finally show ?thesis
    by (simp add: convT_def)
qed

text \<open>
  C9, as the code has it. Scanning \<^verbatim>\<open>nil\<close> yields a null wrapper holding zero, for every
  kind and whatever the library's conversion does. \<^verbatim>\<open>Value\<close> returns the nil driver value
  for a null wrapper. For a valid wrapper holding a value of its kind it returns
  \<^item> that value as a signed 64-bit integer, for every integer kind but \<^verbatim>\<open>uintptr\<close>, provided
    the value is below \<open>2 ^ 63\<close> when the kind is \<^verbatim>\<open>uint\<close> or \<^verbatim>\<open>uint64\<close>;
  \<^item> the value wrapped around to a negative signed 64-bit integer, \<open>v - 2 ^ 64\<close>, for a
    \<^verbatim>\<open>uint\<close> from \<open>2 ^ 63\<close> on;
  \<^item> an error for a \<^verbatim>\<open>uint64\<close> from \<open>2 ^ 63\<close> on, and for every \<^verbatim>\<open>uintptr\<close>;
  \<^item> that value as a 64-bit float, for the float kinds.
\<close>

theorem Scan_nil_and_Value:
  "Numeric_Scan convertAssign k n AnyNil = (n\<lparr>val := \<lparr>V = zeroT k, Valid = False\<rparr>\<rparr>, None)
   \<and> (\<not> Valid (val n) \<longrightarrow> Numeric_Value k n = Inr DriverNil)
   \<and> (Valid (val n) \<and> V (val n) = IntV v \<and> \<not> is_float k \<and> inRange k v \<and> k \<noteq> KUintptr
        \<and> (k = KUint \<or> k = KUint64 \<longrightarrow> v < 2 ^ 63) \<longrightarrow>
      Numeric_Value k n = Inr (DriverInt64 v))
   \<and> (Valid (val n) \<and> V (val n) = IntV v \<and> k = KUint \<and> inRange k v \<and> 2 ^ 63 \<le> v \<longrightarrow>
      Numeric_Value k n = Inr (DriverInt64 (v - 2 ^ 64)))
   \<and> (Valid (val n) \<and> V (val n) = IntV v \<and> k = KUint64 \<and> 2 ^ 63 \<le> v \<longrightarrow>
      Numeric_Value k n = Inl HighBitSet)
   \<and> (Valid (val n) \<and> k = KUintptr \<longrightarrow> Numeric_Value k n = Inl UnsupportedType)
   \<and> (Valid (val n) \<and> V (val n) = FloatV x \<and> is_float k \<longrightarrow>
      Numeric_Value k n = Inr (DriverFloat64 x))"
proof -
  have a: "Numeric_Scan convertAssign k n AnyNil
      = (n\<lparr>val := \<lparr>V = zeroT k, Valid = False\<rparr>\<rparr>, None)"
    by (simp add: Numeric_Scan_def Null_Scan_def)
  have b: "\<not> Valid (val n) \<longrightarrow> Numeric_Value k n = Inr DriverNil"
    by (simp add: Numeric_Value_def Null_Value_def)
  have c: "Valid (val n) \<and> V (val n) = IntV v \<and> \<not> is_float k \<and> inRange k v \<and> k \<noteq> KUintptr
        \<and> (k = KUint \<or> k = KUint64 \<longrightarrow> v < 2 ^ 63) \<longrightarrow>
      Numeric_Value k n = Inr (DriverInt64 v)"
    by (cases k)
      (simp_all add: Numeric_Value_def Null_Value_def convT_KInt64_id inRange_def minOf_def
        maxOf_def)
  have d: "Valid (val n) \<and> V (val n) = IntV v \<and> k = KUint \<and> inRange k v \<and> 2 ^ 63 \<le> v \<longrightarrow>
      Numeric_Value k n = Inr (DriverInt64 (v - 2 ^ 64))"
  proof (intro impI)
    assume h: "Valid (val n) \<and> V (val n) = IntV v \<and> k = KUint \<and> inRange k v \<and> 2 ^ 63 \<le> v"
    then have k: "k = KUint" and n: "Valid (val n)" "V (val n) = IntV v"
      and r: "inRange k v" and v: "2 ^ 63 \<le> v"
      by blast+
    from r have "v < 2 ^ 64"
      unfolding k by (simp add: inRange_def maxOf_def intSize_def)
    with v have "convT KInt64 v = v - 2 ^ 64"
      by (intro convT_KInt64_high)
    with n show "Numeric_Value k n = Inr (DriverInt64 (v - 2 ^ 64))"
      unfolding k by (simp add: Numeric_Value_def Null_Value_def)
  qed
  have e: "Valid (val n) \<and> V (val n) = IntV v \<and> k = KUint64 \<and> 2 ^ 63 \<le> v \<longrightarrow>
      Numeric_Value k n = Inl HighBitSet"
    by (simp add: Numeric_Value_def Null_Value_def)
  have f: "Valid (val n) \<and> k = KUintptr \<longrightarrow> Numeric_Value k n = Inl UnsupportedType"
    by (simp add: Numeric_Value_def Null_Value_def)
  have g: "Valid (val n) \<and> V (val n) = FloatV x \<and> is_float k \<longrightarrow>
      Numeric_Value k n = Inr (DriverFloat64 x)"
    by (cases k) (simp_all add: Numeric_Value_def Null_Value_def)
  from a b c d e f g show ?thesis by (intro conjI)
qed

theorem Scan_nil_and_Value_witness:
  "Numeric_Scan (\<lambda>x. Inl UnsupportedType) KInt8 (NewNumber (IntV 20)) AnyNil
     = (NewNullNumber KInt8, None)
   \<and> Numeric_Value KInt8 (NewNullNumber KInt8) = Inr DriverNil
   \<and> Numeric_Value KInt8 (NewNumber (IntV 20)) = Inr (DriverInt64 20)
   \<and> Numeric_Value KUint64 (NewNumber (IntV 20)) = Inr (DriverInt64 20)
   \<and> Numeric_Value KUint (NewNumber (IntV 18446744073709551615)) = Inr (DriverInt64 (- 1))
   \<and> Numeric_Value KUint64 (NewNumber (IntV 18446744073709551615)) = Inl HighBitSet
   \<and> Numeric_Value KUintptr (NewNumber (IntV 20)) = Inl UnsupportedType
   \<and> Numeric_Value KFloat32 (NewNumber (FloatV (Finite (3 / 2))))
       = Inr (DriverFloat64 (Finite (3 / 2)))"
  using
    Scan_nil_and_Value [where convertAssign = "\<lambda>x. Inl UnsupportedType" and k = KInt8
      and n = "NewNumber (IntV 20)" and v = 20]
    Scan_nil_and_Value [where convertAssign = "\<lambda>x. Inl UnsupportedType" and k = KInt8
      and n = "NewNullNumber KInt8"]
    Scan_nil_and_Value [where convertAssign = "\<lambda>x. Inl UnsupportedType" and k = KUint64
      and n = "NewNumber (IntV 20)" and v = 20]
    Scan_nil_and_Value [where convertAssign = "\<lambda>x. Inl UnsupportedType" and k = KUint
      and n = "NewNumber (IntV 18446744073709551615)" and v = 18446744073709551615]
    Scan_nil_and_Value [where convertAssign = "\<lambda>x. Inl UnsupportedType" and k = KUint64
      and n = "NewNumber (IntV 18446744073709551615)" and v = 18446744073709551615]
    Scan_nil_and_Value [where convertAssign = "\<lambda>x. Inl UnsupportedType" and k = KUintptr
      and n = "NewNumber (IntV 20)"]
    Scan_nil_and_Value [where convertAssign = "\<lambda>x. Inl UnsupportedType" and k = KFloat32
      and n = "NewNumber (FloatV (Finite (3 / 2)))" and x = "Finite (3 / 2)"]
  by (simp add: NewNumber_def NewNullNumber_def inRange_def minOf_def maxOf_def intSize_def
      zeroT_def)

section \<open>Division of a null dividend\<close>

lemma inRange_zero: "inRange k 0"
  by (cases k) (simp_all add: inRange_def minOf_def maxOf_def intSize_def)

text \<open>
  \<^verbatim>\<open>SafeDiv\<close> and \<^verbatim>\<open>Div\<close> never look at the valid flag of the dividend. For a null dividend
  of an integer kind that stores zero the result is a valid zero.
\<close>

lemma SafeDiv_zero_null_dividend:
  assumes "\<not> Valid (val n)" "V (val n) = IntV 0" "Valid (val d)" "V (val d) = IntV y" "y \<noteq> 0"
  shows "Numeric_SafeDiv fdiv k n d = (NewNumber (IntV 0), None)
    \<and> Numeric_Div fdiv k n d = Returns (NewNumber (IntV 0))"
  using assms inRange_zero [of k]
  by (simp add: Numeric_SafeDiv_def Numeric_Div_def quo_def convT_id)

text \<open>
  C10 says that the result is a valid zero for every null dividend. A null dividend made
  by decoding the empty text into a wrapper that held 42 still stores 42, and dividing it
  by a valid 2 returns a valid 21.
\<close>

theorem SafeDiv_stale_null_dividend:
  "Numeric_IsNull (fst (Numeric_UnmarshalText ParseFloat KInt8 (NewNumber (IntV 42)) []))
   \<and> Numeric_SafeDiv fdiv KInt8
         (fst (Numeric_UnmarshalText ParseFloat KInt8 (NewNumber (IntV 42)) []))
         (NewNumber (IntV 2))
       = (NewNumber (IntV 21), None)
   \<and> Numeric_Div fdiv KInt8
         (fst (Numeric_UnmarshalText ParseFloat KInt8 (NewNumber (IntV 42)) []))
         (NewNumber (IntV 2))
       = Returns (NewNumber (IntV 21))"
  by code_simp

theorem SafeDiv_stale_null_dividend_witness:
  "\<forall>ParseFloat fdiv.
     fst (Numeric_SafeDiv fdiv KInt8
            (fst (Numeric_UnmarshalText ParseFloat KInt8 (NewNumber (IntV 42)) []))
            (NewNumber (IntV 2)))
       \<noteq> NewNumber (IntV 0)"
proof (intro allI)
  fix ParseFloat :: "nat \<Rightarrow> string \<Rightarrow> error + float" and fdiv :: "float \<Rightarrow> float \<Rightarrow> float"
  show "fst (Numeric_SafeDiv fdiv KInt8
            (fst (Numeric_UnmarshalText ParseFloat KInt8 (NewNumber (IntV 42)) []))
            (NewNumber (IntV 2)))
       \<noteq> NewNumber (IntV 0)"
    using SafeDiv_stale_null_dividend [of ParseFloat fdiv] by (simp add: NewNumber_def)
qed

end
